theory Spec2Isabelle
  imports Complex_Main "HOL-Library.AList"
begin

section \<open>Python values and exceptions\<close>

text \<open>
  The notebook \<^verbatim>\<open>thredds/aorc-adding-spatial-metadata.ipynb\<close> is a sequence of
  cells. Each cell is embedded as a function that returns either the exception that stops
  the run (\<open>Inl\<close>) or the values the cell binds (\<open>Inr\<close>). The first five constructors of
  \<open>error\<close> are the Python exceptions the cells and the library calls in them raise.
  \<open>MetadataParseError\<close> and \<open>DimensionMismatchError\<close> are error kinds of the design
  document; no definition below produces them, they are here so that statements about them
  can be written down.
\<close>

datatype error =
    AttributeError | ValueError | IndexError | KeyError | TypeError
  | MetadataParseError string | DimensionMismatchError

text \<open>An exception ends the cell: the rest runs only on a value.\<close>

definition and_then :: "error + 'a \<Rightarrow> ('a \<Rightarrow> error + 'b) \<Rightarrow> error + 'b" where
  "and_then r f = (case r of Inl e \<Rightarrow> Inl e | Inr v \<Rightarrow> f v)"

text \<open>
  A \<open>str\<close> is a list of characters; a \<^typ>\<open>char\<close> is read as a code point below 256.
  In that range \<^verbatim>\<open>\d\<close> of Python's \<^verbatim>\<open>re\<close> matches \<^verbatim>\<open>0\<close> to \<^verbatim>\<open>9\<close> only.
\<close>

definition is_digit :: "char \<Rightarrow> bool" where
  "is_digit c = (48 \<le> (of_char c :: nat) \<and> (of_char c :: nat) \<le> 57)"

text \<open>
  The characters \<^verbatim>\<open>int()\<close> skips around a number: tab to carriage return, the space,
  and the two spaces above 127 (next line, no-break space). The separators 28 to 31 are
  not among them.
\<close>

definition is_space :: "char \<Rightarrow> bool" where
  "is_space c = ((of_char c :: nat) \<in> {9, 10, 11, 12, 13, 32, 133, 160})"

definition strip :: "string \<Rightarrow> string" where
  "strip s = rev (dropWhile is_space (rev (dropWhile is_space s)))"

text \<open>Decimal digits with single underscores between them, as \<^verbatim>\<open>int()\<close> accepts.\<close>

fun int_body :: "string \<Rightarrow> bool" where
  "int_body [] = False"
| "int_body [c] = is_digit c"
| "int_body (c # d # r) =
     (is_digit c \<and> (if d = CHR ''_'' then int_body r else int_body (d # r)))"

definition digits_value :: "string \<Rightarrow> nat" where
  "digits_value s = foldl (\<lambda>a c. 10 * a + (of_char c - 48)) 0 (filter is_digit s)"

text \<open>
  \<^verbatim>\<open>int(s)\<close> for a \<open>str\<close> in base 10: surrounding whitespace is dropped, one sign is
  allowed, anything else raises \<^verbatim>\<open>ValueError\<close>. Python integers are unbounded, and
  Python 3.10.0, which the notebook names, reads any number of digits.
\<close>

definition py_int :: "string \<Rightarrow> error + int" where
  "py_int s =
    (let t = strip s;
         neg = (t \<noteq> [] \<and> hd t = CHR ''-'');
         u = (if t \<noteq> [] \<and> (hd t = CHR ''-'' \<or> hd t = CHR ''+'') then tl t else t)
     in if int_body u
        then Inr ((if neg then - 1 else 1) * int (digits_value u))
        else Inl ValueError)"

text \<open>\<^verbatim>\<open>xs[i]\<close> for the constant indices \<^verbatim>\<open>0\<close> and \<^verbatim>\<open>1\<close> the cells use.\<close>

definition py_index :: "'a list \<Rightarrow> nat \<Rightarrow> error + 'a" where
  "py_index xs i = (if i < length xs then Inr (xs ! i) else Inl IndexError)"

text \<open>
  \<^verbatim>\<open>xs[a:b]\<close>: a negative bound counts from the end, and both bounds are clamped to the
  length. A slice never raises.
\<close>

definition slice_bound :: "nat \<Rightarrow> int \<Rightarrow> nat" where
  "slice_bound n a = (if a < 0 then nat (max (a + int n) 0) else min (nat a) n)"

definition py_slice :: "'a list \<Rightarrow> int \<Rightarrow> int \<Rightarrow> 'a list" where
  "py_slice xs a b = drop (slice_bound (length xs) a) (take (slice_bound (length xs) b) xs)"

text \<open>
  \<^verbatim>\<open>s.split(c)\<close> for a one-character separator: the text is cut at every separator;
  \<open>cur\<close> holds the piece being read, most recent character first.
\<close>

fun split_from :: "char \<Rightarrow> string \<Rightarrow> string \<Rightarrow> string list" where
  "split_from c cur [] = [rev cur]"
| "split_from c cur (x # xs) =
     (if x = c then rev cur # split_from c [] xs else split_from c (x # cur) xs)"

definition split :: "char \<Rightarrow> string \<Rightarrow> string list" where
  "split c s = split_from c [] s"

section \<open>Regular expressions of the notebook\<close>

text \<open>
  The two patterns are a literal text followed by \<^verbatim>\<open>(\d+),(\d+)\<close>. A pattern is a list
  of items: a literal character or a group \<^verbatim>\<open>(\d+)\<close>. \<open>re_match\<close> is the backtracking
  matcher of \<^verbatim>\<open>re\<close> at one position: \<^verbatim>\<open>\d+\<close> is greedy, it takes the longest run of
  digits first and gives characters back one by one while the rest fails. The result is
  \<^verbatim>\<open>group(0)\<close>, the matched text. \<open>re_search\<close> tries the positions from left to
  right, as \<^verbatim>\<open>re.search\<close> does.
\<close>

datatype re_item = Chr char | DigitsGroup

fun first_some :: "'a option list \<Rightarrow> 'a option" where
  "first_some [] = None"
| "first_some (None # rs) = first_some rs"
| "first_some (Some r # rs) = Some r"

fun re_match :: "re_item list \<Rightarrow> string \<Rightarrow> string option" where
  "re_match [] s = Some []"
| "re_match (Chr c # p) s =
     (case s of
        [] \<Rightarrow> None
      | d # s' \<Rightarrow>
          if d = c then (case re_match p s' of None \<Rightarrow> None | Some m \<Rightarrow> Some (d # m))
          else None)"
| "re_match (DigitsGroup # p) s =
     first_some
       (map (\<lambda>k. case re_match p (drop k s) of None \<Rightarrow> None | Some m \<Rightarrow> Some (take k s @ m))
            (rev [1 ..< Suc (length (takeWhile is_digit s))]))"

fun re_search :: "re_item list \<Rightarrow> string \<Rightarrow> string option" where
  "re_search p [] = re_match p []"
| "re_search p (c # s) =
     (case re_match p (c # s) of Some m \<Rightarrow> Some m | None \<Rightarrow> re_search p s)"

text \<open>The texts a pattern matches, independently of the matcher.\<close>

inductive matches :: "re_item list \<Rightarrow> string \<Rightarrow> bool" where
  matches_Nil: "matches [] []"
| matches_Chr: "matches p m \<Longrightarrow> matches (Chr c # p) (c # m)"
| matches_Digits:
    "d \<noteq> [] \<Longrightarrow> list_all is_digit d \<Longrightarrow> matches p m \<Longrightarrow> matches (DigitsGroup # p) (d @ m)"

definition contains_match :: "re_item list \<Rightarrow> string \<Rightarrow> bool" where
  "contains_match p s = (\<exists>pre m post. s = pre @ m @ post \<and> matches p m)"

text \<open>An axis pattern: \<^verbatim>\<open>r'<axis>,(\d+),(\d+)'\<close>.\<close>

definition axis_pattern :: "string \<Rightarrow> re_item list" where
  "axis_pattern axis = map Chr axis @ [Chr CHR '','', DigitsGroup, Chr CHR '','', DigitsGroup]"

definition pattern_we :: "re_item list" where
  "pattern_we = axis_pattern ''west_east''"

definition pattern_sn :: "re_item list" where
  "pattern_sn = axis_pattern ''south_north''"

section \<open>Offset lookup and extraction\<close>

text \<open>
  \<^verbatim>\<open>pattern_lookup(pattern, s)\<close> returns \<^verbatim>\<open>match.group(0)\<close> when the search finds a
  match. Otherwise it prints a line and falls off its end, which returns \<^verbatim>\<open>None\<close>. The
  second component is what the call prints.
\<close>

definition pattern_lookup :: "re_item list \<Rightarrow> string \<Rightarrow> string option \<times> string list" where
  "pattern_lookup pattern s =
     (case re_search pattern s of
        Some m \<Rightarrow> (Some m, [])
      | None \<Rightarrow> (None, [''No match found.'']))"

text \<open>
  The extraction cell, given \<^verbatim>\<open>ds.attrs['history']\<close>. Both lookups run first. Then
  \<^verbatim>\<open>GSL_southnorth.split(',')[1:]\<close> is evaluated before the same on
  \<^verbatim>\<open>GSL_westeast\<close>; \<^verbatim>\<open>None\<close> has no \<^verbatim>\<open>split\<close>, which raises
  \<^verbatim>\<open>AttributeError\<close>. The cell binds \<^verbatim>\<open>(y_index, x_index)\<close>.
\<close>

definition offset_extraction ::
    "string \<Rightarrow> (error + string list \<times> string list) \<times> string list" where
  "offset_extraction history =
     (let (GSL_westeast, out1) = pattern_lookup pattern_we history;
          (GSL_southnorth, out2) = pattern_lookup pattern_sn history
      in ((case GSL_southnorth of
             None \<Rightarrow> Inl AttributeError
           | Some sn \<Rightarrow>
               (case GSL_westeast of
                  None \<Rightarrow> Inl AttributeError
                | Some we \<Rightarrow> Inr (drop 1 (split CHR '','' sn), drop 1 (split CHR '','' we)))),
          out1 @ out2))"

section \<open>Slicing the reference coordinates\<close>

text \<open>
  Of the reference template \<^verbatim>\<open>ds_meta\<close> the cells read the one-dimensional coordinates
  \<^verbatim>\<open>x\<close> and \<^verbatim>\<open>y\<close>. The type \<open>'v\<close> stands for the floating-point values.
\<close>

record 'v ref_template =
  ref_x :: "'v list"
  ref_y :: "'v list"

text \<open>
  The slicing cell. The conversions run in the order of the source text:
  \<^verbatim>\<open>x_index[0]\<close>, \<^verbatim>\<open>x_index[1]\<close>, then \<^verbatim>\<open>y_index[1]\<close>, \<^verbatim>\<open>y_index[0]\<close>.
  The cell binds \<^verbatim>\<open>(x, y)\<close>. No size of the target dataset is read.
\<close>

definition coordinate_slicing ::
    "'v ref_template \<Rightarrow> string list \<Rightarrow> string list \<Rightarrow> error + 'v list \<times> 'v list" where
  "coordinate_slicing ds_meta x_index y_index =
     (let leny = int (length (ref_y ds_meta)) in
      and_then (py_index x_index 0) (\<lambda>sx0.
      and_then (py_int sx0) (\<lambda>x0.
      and_then (py_index x_index 1) (\<lambda>sx1.
      and_then (py_int sx1) (\<lambda>x1.
      and_then (py_index y_index 1) (\<lambda>sy1.
      and_then (py_int sy1) (\<lambda>y1.
      and_then (py_index y_index 0) (\<lambda>sy0.
      and_then (py_int sy0) (\<lambda>y0.
        Inr (py_slice (ref_x ds_meta) x0 (x1 + 1),
             py_slice (ref_y ds_meta) (leny - y1 - 1) (leny - y0)))))))))))"

section \<open>Reprojection\<close>

text \<open>
  A two-dimensional array is its shape and its values in row-major order.
  \<^verbatim>\<open>numpy.meshgrid(x, y)\<close> gives two arrays of shape \<^verbatim>\<open>(len(y), len(x))\<close>: the rows of
  the first are copies of \<^verbatim>\<open>x\<close>, row \<open>i\<close> of the second holds \<^verbatim>\<open>y[i]\<close> throughout.
\<close>

record 'v array2 =
  shape2 :: "nat \<times> nat"
  flat :: "'v list"

definition meshgrid :: "'v list \<Rightarrow> 'v list \<Rightarrow> 'v array2 \<times> 'v array2" where
  "meshgrid x y =
     (\<lparr>shape2 = (length y, length x), flat = concat (map (\<lambda>yi. x) y)\<rparr>,
      \<lparr>shape2 = (length y, length x), flat = concat (map (\<lambda>yi. map (\<lambda>xj. yi) x) y)\<rparr>)"

text \<open>
  \<^verbatim>\<open>transformer.transform(X, Y)\<close> maps the point transform over two arrays of one shape.
  The point transform \<open>T\<close> (Lambert conformal conic to longitude and latitude, in floating
  point) is a parameter.
\<close>

definition transform :: "('v \<Rightarrow> 'v \<Rightarrow> 'v \<times> 'v) \<Rightarrow> 'v array2 \<Rightarrow> 'v array2 \<Rightarrow> 'v array2 \<times> 'v array2" where
  "transform T X Y =
     (\<lparr>shape2 = shape2 X, flat = map2 (\<lambda>a b. fst (T a b)) (flat X) (flat Y)\<rparr>,
      \<lparr>shape2 = shape2 X, flat = map2 (\<lambda>a b. snd (T a b)) (flat X) (flat Y)\<rparr>)"

text \<open>The reprojection cell binds \<^verbatim>\<open>(lon, lat)\<close>.\<close>

definition reprojection :: "('v \<Rightarrow> 'v \<Rightarrow> 'v \<times> 'v) \<Rightarrow> 'v list \<Rightarrow> 'v list \<Rightarrow> 'v array2 \<times> 'v array2" where
  "reprojection T x y = (let (X, Y) = meshgrid x y in transform T X Y)"

section \<open>The target dataset\<close>

text \<open>
  An \<^verbatim>\<open>xarray.Dataset\<close> as far as the cells use it: the ordered dictionary of its
  variables (data variables and coordinates alike), the set of names that are coordinates,
  and its attributes. A variable has dimension names, a shape, its values in row-major
  order and an attribute dictionary. Dictionaries are association lists in insertion
  order; assigning to a key that is present replaces the value in place, a new key goes
  to the end (\<^const>\<open>AList.update\<close>).
\<close>

datatype attr_value = AttrStr string | AttrFloat real

record 'v variable =
  vdims :: "string list"
  vshape :: "nat list"
  vflat :: "'v list"
  vattrs :: "(string \<times> attr_value) list"

record 'v dataset =
  variables :: "(string \<times> 'v variable) list"
  coord_names :: "string set"
  attrs :: "(string \<times> attr_value) list"

text \<open>
  \<^verbatim>\<open>calculate_dimensions(variables)\<close> of xarray: it walks over the variables and over
  each variable's \<^verbatim>\<open>zip(var.dims, var.shape)\<close>, collecting the size of every dimension.
  A dimension that is also the name of a scalar variable, or that occurs with two sizes,
  raises \<^verbatim>\<open>ValueError\<close>. \<open>dim_pairs\<close> is the sequence of pairs the two nested loops
  visit.
\<close>

definition dim_pairs :: "(string \<times> 'v variable) list \<Rightarrow> (string \<times> nat) list" where
  "dim_pairs vars = concat (map (\<lambda>(k, var). zip (vdims var) (vshape var)) vars)"

definition scalar_vars :: "(string \<times> 'v variable) list \<Rightarrow> string list" where
  "scalar_vars vars = map fst (filter (\<lambda>(k, var). vdims var = []) vars)"

fun add_dims :: "string list \<Rightarrow> (string \<times> nat) list \<Rightarrow> (string \<times> nat) list \<Rightarrow> error + (string \<times> nat) list" where
  "add_dims sc dims [] = Inr dims"
| "add_dims sc dims ((d, n) # ps) =
     (if d \<in> set sc then Inl ValueError
      else (case map_of dims d of
              None \<Rightarrow> add_dims sc (dims @ [(d, n)]) ps
            | Some n' \<Rightarrow> if n' \<noteq> n then Inl ValueError else add_dims sc dims ps))"

definition calculate_dimensions :: "(string \<times> 'v variable) list \<Rightarrow> error + (string \<times> nat) list" where
  "calculate_dimensions vars = add_dims (scalar_vars vars) [] (dim_pairs vars)"

text \<open>
  The names, dimension names and shapes of the variables: all that \<open>calculate_dimensions\<close>
  reads.
\<close>

definition skeleton :: "(string \<times> 'v variable) list \<Rightarrow> (string \<times> string list \<times> nat list) list" where
  "skeleton vars = map (\<lambda>(k, var). (k, vdims var, vshape var)) vars"

text \<open>
  \<^verbatim>\<open>ds.rename_dims(dims_dict)\<close>. \<^verbatim>\<open>ds.dims\<close> is what \<open>calculate_dimensions\<close> gives
  for the variables. Every old name must be a dimension, and no new name may be a
  dimension or a variable already; otherwise \<^verbatim>\<open>ValueError\<close>. The dimension names of
  every variable are then mapped through the dictionary; variable names, coordinates and
  attributes stay.
\<close>

definition rename_dim :: "(string \<times> string) list \<Rightarrow> string \<Rightarrow> string" where
  "rename_dim dims_dict d = (case map_of dims_dict d of None \<Rightarrow> d | Some d' \<Rightarrow> d')"

definition rename_dims :: "'v dataset \<Rightarrow> (string \<times> string) list \<Rightarrow> error + 'v dataset" where
  "rename_dims ds dims_dict =
     and_then (calculate_dimensions (variables ds)) (\<lambda>dims.
       if \<exists>(k, v) \<in> set dims_dict.
            k \<notin> fst ` set dims \<or> v \<in> fst ` set dims \<or> v \<in> fst ` set (variables ds)
       then Inl ValueError
       else Inr (ds\<lparr>variables :=
                   map (\<lambda>(name, var). (name, var\<lparr>vdims := map (rename_dim dims_dict) (vdims var)\<rparr>))
                       (variables ds)\<rparr>))"

text \<open>The rename cell: \<^verbatim>\<open>ds.rename_dims(south_north='y', west_east='x', Time='time')\<close>.\<close>

definition cell_dict :: "(string \<times> string) list" where
  "cell_dict = [(''south_north'', ''y''), (''west_east'', ''x''), (''Time'', ''time'')]"

definition rename_dims_cell :: "'v dataset \<Rightarrow> error + 'v dataset" where
  "rename_dims_cell ds = rename_dims ds cell_dict"

text \<open>
  \<^verbatim>\<open>ds.assign_coords(name = value)\<close>: the new variable, built from the value without
  attributes, replaces or extends the variables; the dimensions are recalculated, which
  raises \<^verbatim>\<open>ValueError\<close> on a size conflict; the name becomes a coordinate.
\<close>

definition assign_coords :: "'v dataset \<Rightarrow> string \<Rightarrow> 'v variable \<Rightarrow> error + 'v dataset" where
  "assign_coords ds name var =
     (let vars = AList.update name var (variables ds) in
      and_then (calculate_dimensions vars) (\<lambda>dims.
        Inr (ds\<lparr>variables := vars, coord_names := insert name (coord_names ds)\<rparr>)))"

text \<open>
  The values the cell passes: \<^verbatim>\<open>(['y', 'x'], lon)\<close> for a two-dimensional array, and a
  one-dimensional array under the name of its own dimension.
\<close>

definition variable2 :: "string list \<Rightarrow> 'v array2 \<Rightarrow> 'v variable" where
  "variable2 ds a =
     \<lparr>vdims = ds, vshape = [fst (shape2 a), snd (shape2 a)], vflat = flat a, vattrs = []\<rparr>"

definition variable1 :: "string \<Rightarrow> 'v list \<Rightarrow> 'v variable" where
  "variable1 d a = \<lparr>vdims = [d], vshape = [length a], vflat = a, vattrs = []\<rparr>"

definition assign_coords_cell ::
    "'v dataset \<Rightarrow> 'v array2 \<Rightarrow> 'v array2 \<Rightarrow> 'v list \<Rightarrow> 'v list \<Rightarrow> error + 'v dataset" where
  "assign_coords_cell ds lon lat x y =
     and_then (assign_coords ds ''lon'' (variable2 [''y'', ''x''] lon)) (\<lambda>ds.
     and_then (assign_coords ds ''lat'' (variable2 [''y'', ''x''] lat)) (\<lambda>ds.
     and_then (assign_coords ds ''x'' (variable1 ''x'' x)) (\<lambda>ds.
     assign_coords ds ''y'' (variable1 ''y'' y))))"

text \<open>What the four assignments build when none of them raises.\<close>

definition coords_assigned ::
    "'v dataset \<Rightarrow> 'v array2 \<Rightarrow> 'v array2 \<Rightarrow> 'v list \<Rightarrow> 'v list \<Rightarrow> 'v dataset" where
  "coords_assigned ds lon lat x y =
     ds\<lparr>variables :=
          AList.update ''y'' (variable1 ''y'' y)
            (AList.update ''x'' (variable1 ''x'' x)
               (AList.update ''lat'' (variable2 [''y'', ''x''] lat)
                  (AList.update ''lon'' (variable2 [''y'', ''x''] lon) (variables ds)))),
        coord_names := insert ''y'' (insert ''x'' (insert ''lat'' (insert ''lon'' (coord_names ds))))\<rparr>"

text \<open>
  \<^verbatim>\<open>ds.<name>.attrs[key] = value\<close>. Attribute access finds a variable of that name and
  the assignment changes the variable's attribute dictionary in place. Without such a
  variable, a dimension of that name yields a temporary index array, whose changed
  attributes are lost; anything else has no \<^verbatim>\<open>attrs\<close> and raises
  \<^verbatim>\<open>AttributeError\<close>.
\<close>

definition set_attr :: "string \<Rightarrow> string \<Rightarrow> attr_value \<Rightarrow> 'v dataset \<Rightarrow> error + 'v dataset" where
  "set_attr name key val ds =
     (case map_of (variables ds) name of
        Some var \<Rightarrow>
          Inr (ds\<lparr>variables :=
                 AList.update name (var\<lparr>vattrs := AList.update key val (vattrs var)\<rparr>) (variables ds)\<rparr>)
      | None \<Rightarrow>
          if name \<in> fst ` set (dim_pairs (variables ds)) then Inr ds else Inl AttributeError)"

fun set_attrs :: "(string \<times> string \<times> attr_value) list \<Rightarrow> 'v dataset \<Rightarrow> error + 'v dataset" where
  "set_attrs [] ds = Inr ds"
| "set_attrs ((name, key, val) # as) ds = and_then (set_attr name key val ds) (set_attrs as)"

text \<open>The attribute cell: its fourteen assignments, in order.\<close>

definition coordinate_attrs :: "(string \<times> string \<times> attr_value) list" where
  "coordinate_attrs =
     [(''x'', ''axis'', AttrStr ''X''),
      (''x'', ''standard_name'', AttrStr ''projection_x_coordinate''),
      (''x'', ''long_name'', AttrStr ''x-coordinate in projected coordinate system''),
      (''x'', ''resolution'', AttrFloat 1000),
      (''y'', ''axis'', AttrStr ''Y''),
      (''y'', ''standard_name'', AttrStr ''projection_y_coordinate''),
      (''y'', ''long_name'', AttrStr ''y-coordinate in projected coordinate system''),
      (''y'', ''resolution'', AttrFloat 1000),
      (''lon'', ''units'', AttrStr ''degrees_east''),
      (''lon'', ''standard_name'', AttrStr ''longitude''),
      (''lon'', ''long_name'', AttrStr ''longitude''),
      (''lat'', ''units'', AttrStr ''degrees_north''),
      (''lat'', ''standard_name'', AttrStr ''latitude''),
      (''lat'', ''long_name'', AttrStr ''latitude'')]"

definition attrs_cell :: "'v dataset \<Rightarrow> error + 'v dataset" where
  "attrs_cell ds = set_attrs coordinate_attrs ds"

text \<open>The two annotation cells, one after the other.\<close>

definition annotate ::
    "'v array2 \<Rightarrow> 'v array2 \<Rightarrow> 'v list \<Rightarrow> 'v list \<Rightarrow> 'v dataset \<Rightarrow> error + 'v dataset" where
  "annotate lon lat x y ds = and_then (assign_coords_cell ds lon lat x y) attrs_cell"

section \<open>The run of the notebook\<close>

text \<open>
  The cells in the order of the notebook, from the two opened datasets to the annotated
  dataset; the first exception ends the run. \<^verbatim>\<open>ds.attrs['history']\<close> raises
  \<^verbatim>\<open>KeyError\<close> when the attribute is missing, and \<^verbatim>\<open>re.search\<close> raises
  \<^verbatim>\<open>TypeError\<close> on a value that is not a string. The cells after the attribute cell
  (writing the reference system through rioxarray, plotting) are not part of the model.
\<close>

definition history_attr :: "'v dataset \<Rightarrow> error + string" where
  "history_attr ds =
     (case map_of (attrs ds) ''history'' of
        None \<Rightarrow> Inl KeyError
      | Some (AttrFloat r) \<Rightarrow> Inl TypeError
      | Some (AttrStr h) \<Rightarrow> Inr h)"

text \<open>
  The cells that derive the coordinate arrays (extraction, slicing, reprojection), apart
  from the target dataset: the run below passes through the same three steps.
\<close>

definition derived_coordinates ::
    "('v \<Rightarrow> 'v \<Rightarrow> 'v \<times> 'v) \<Rightarrow> string \<Rightarrow> 'v ref_template \<Rightarrow>
       error + ('v list \<times> 'v list) \<times> ('v array2 \<times> 'v array2)" where
  "derived_coordinates T history ds_meta =
     and_then (fst (offset_extraction history)) (\<lambda>(y_index, x_index).
     and_then (coordinate_slicing ds_meta x_index y_index) (\<lambda>(x, y).
       Inr ((x, y), reprojection T x y)))"

definition notebook ::
    "('v \<Rightarrow> 'v \<Rightarrow> 'v \<times> 'v) \<Rightarrow> 'v dataset \<Rightarrow> 'v ref_template \<Rightarrow> error + 'v dataset" where
  "notebook T ds ds_meta =
     and_then (history_attr ds) (\<lambda>history.
     and_then (fst (offset_extraction history)) (\<lambda>(y_index, x_index).
     and_then (coordinate_slicing ds_meta x_index y_index) (\<lambda>(x, y).
     and_then (rename_dims_cell ds) (\<lambda>ds.
       (let (lon, lat) = reprojection T x y
        in annotate lon lat x y ds)))))"

section \<open>A small scenario\<close>

text \<open>
  The end-to-end scenario of the design document, used for the concrete runs below: a
  target with one field over \<^verbatim>\<open>(Time, south_north, west_east)\<close> of sizes 2, 4 and 3,
  whose history records the column offsets 10 to 12 and the row offsets 20 to 23, and a
  reference template with 20 columns and 30 rows. Values are integers here, and the
  concrete runs use simple integer functions for the point transform.
\<close>

definition scenario_history :: string where
  "scenario_history = ''...west_east,10,12 ... south_north,20,23...''"

definition scenario_ds :: "int dataset" where
  "scenario_ds =
     \<lparr>variables =
        [(''LWDOWN'',
          \<lparr>vdims = [''Time'', ''south_north'', ''west_east''], vshape = [2, 4, 3],
           vflat = replicate 24 0, vattrs = []\<rparr>)],
      coord_names = {},
      attrs = [(''history'', AttrStr scenario_history)]\<rparr>"

definition scenario_meta :: "int ref_template" where
  "scenario_meta = \<lparr>ref_x = map int [0 ..< 20], ref_y = map int [100 ..< 130]\<rparr>"

text \<open>The same target with a history that records four columns, 10 to 13.\<close>

definition scenario_ds_wide :: "int dataset" where
  "scenario_ds_wide =
     scenario_ds\<lparr>attrs := [(''history'', AttrStr ''...west_east,10,13 ... south_north,20,23...'')]\<rparr>"


text \<open>The scenario's target after the rename cell.\<close>

definition scenario_renamed :: "int dataset" where
  "scenario_renamed =
     \<lparr>variables =
        [(''LWDOWN'',
          \<lparr>vdims = [''time'', ''y'', ''x''], vshape = [2, 4, 3],
           vflat = replicate 24 0, vattrs = []\<rparr>)],
      coord_names = {},
      attrs = [(''history'', AttrStr scenario_history)]\<rparr>"

section \<open>The matcher against the matched texts\<close>

lemma first_some_SomeD: "first_some rs = Some r \<Longrightarrow> Some r \<in> set rs"
  by (induction rs rule: first_some.induct) auto

lemma first_some_None_iff: "first_some rs = None \<longleftrightarrow> (\<forall>r \<in> set rs. r = None)"
  by (induction rs rule: first_some.induct) auto

lemma take_takeWhile_digits:
  assumes "k \<le> length (takeWhile is_digit s)"
  shows "list_all is_digit (take k s)"
proof -
  have "take k s = take k (takeWhile is_digit s @ dropWhile is_digit s)"
    by simp
  also have "\<dots> = take k (takeWhile is_digit s)"
    using assms by (simp del: takeWhile_dropWhile_id)
  finally have "set (take k s) \<subseteq> set (takeWhile is_digit s)"
    by (simp add: set_take_subset)
  then show ?thesis
    by (auto simp: list_all_iff dest: set_takeWhileD)
qed

lemma re_match_Digits_unfold:
  "re_match (DigitsGroup # p) s =
     first_some (map (\<lambda>k. case re_match p (drop k s) of None \<Rightarrow> None | Some m \<Rightarrow> Some (take k s @ m))
        (rev [1 ..< Suc (length (takeWhile is_digit s))]))"
  by simp

lemma re_match_sound:
  "re_match p s = Some m \<Longrightarrow> matches p m \<and> (\<exists>post. s = m @ post)"
proof (induction p s arbitrary: m rule: re_match.induct)
  case (1 s)
  then show ?case by (simp add: matches_Nil)
next
  case (2 c p s)
  then show ?case
    by (auto split: list.splits if_splits option.splits intro: matches_Chr)
next
  case (3 p s)
  define f where "f = (\<lambda>k. case re_match p (drop k s) of None \<Rightarrow> None | Some m \<Rightarrow> Some (take k s @ m))"
  define ks where "ks = rev [1 ..< Suc (length (takeWhile is_digit s))]"
  from "3.prems" have "first_some (map f ks) = Some m"
    unfolding f_def ks_def by (simp only: re_match_Digits_unfold)
  then have "Some m \<in> f ` set ks"
    using first_some_SomeD by fastforce
  then obtain k where k: "k \<in> set ks" and fk: "f k = Some m"
    by force
  from fk obtain m' where m': "re_match p (drop k s) = Some m'" and m: "m = take k s @ m'"
    unfolding f_def by (auto split: option.splits)
  from k have k': "k \<in> set (rev [1 ..< Suc (length (takeWhile is_digit s))])"
    by (simp only: ks_def)
  from "3.IH"[OF k' m'] obtain post where mm: "matches p m'" and post: "drop k s = m' @ post"
    by blast
  from k' have k1: "1 \<le> k" and kn: "k \<le> length (takeWhile is_digit s)"
    by auto
  have "k \<le> length s"
    using kn length_takeWhile_le[of is_digit s] by linarith
  with k1 have ne: "take k s \<noteq> []" by auto
  have "matches (DigitsGroup # p) (take k s @ m')"
    using ne take_takeWhile_digits[OF kn] mm by (rule matches_Digits)
  moreover have "s = (take k s @ m') @ post"
    using post by (metis append_assoc append_take_drop_id)
  ultimately show ?case using m by blast
qed

lemma re_match_complete:
  "matches p m \<Longrightarrow> re_match p (m @ post) \<noteq> None"
proof (induction arbitrary: post rule: matches.induct)
  case matches_Nil
  then show ?case by simp
next
  case (matches_Chr p m c)
  then show ?case by (auto split: option.splits)
next
  case (matches_Digits d p m)
  define s where "s = (d @ m) @ post"
  define f where "f = (\<lambda>k. case re_match p (drop k s) of None \<Rightarrow> None | Some m \<Rightarrow> Some (take k s @ m))"
  define ks where "ks = rev [1 ..< Suc (length (takeWhile is_digit s))]"
  have "takeWhile is_digit s = d @ takeWhile is_digit (m @ post)"
    using matches_Digits.hyps(2) by (simp add: s_def list_all_iff takeWhile_append2)
  then have "length d \<le> length (takeWhile is_digit s)" by simp
  moreover have "1 \<le> length d" using matches_Digits.hyps(1) by (cases d) auto
  ultimately have k: "length d \<in> set ks" by (auto simp: ks_def)
  have "drop (length d) s = m @ post" by (simp add: s_def)
  then have "f (length d) \<noteq> None"
    using matches_Digits.IH[of post] by (auto simp: f_def split: option.splits)
  with k have "\<exists>r \<in> set (map f ks). r \<noteq> None"
    by auto
  then have "first_some (map f ks) \<noteq> None"
    by (simp only: first_some_None_iff) blast
  then show ?case
    unfolding f_def ks_def s_def by (simp only: re_match_Digits_unfold not_False_eq_True)
qed

lemma re_search_sound:
  "re_search p s = Some m \<Longrightarrow> \<exists>pre post. s = pre @ m @ post \<and> matches p m"
proof (induction s)
  case Nil
  then show ?case using re_match_sound[of p "[]" m] by auto
next
  case (Cons c s)
  show ?case
  proof (cases "re_match p (c # s)")
    case None
    with Cons.prems have "re_search p s = Some m" by simp
    from Cons.IH[OF this] obtain pre post where "s = pre @ m @ post" "matches p m" by blast
    then have "c # s = (c # pre) @ m @ post \<and> matches p m" by simp
    then show ?thesis by blast
  next
    case (Some m')
    with Cons.prems have "m' = m" by simp
    with Some re_match_sound[of p "c # s" m] obtain post where "matches p m" "c # s = [] @ m @ post"
      by auto
    then show ?thesis by blast
  qed
qed

lemma re_search_complete:
  "matches p m \<Longrightarrow> re_search p (pre @ m @ post) \<noteq> None"
proof (induction pre)
  case Nil
  then show ?case
    using re_match_complete[of p m post] by (cases "m @ post") (auto split: option.splits)
next
  case (Cons c pre)
  then show ?case by (auto split: option.splits)
qed

lemma re_search_None_iff: "re_search p s = None \<longleftrightarrow> \<not> contains_match p s"
  unfolding contains_match_def
  using re_search_sound[of p s] re_search_complete[of p]
  by (metis not_Some_eq)

section \<open>Axis patterns, splitting and integers\<close>

lemma matches_Nil_iff: "matches [] m \<longleftrightarrow> m = []"
  by (auto elim: matches.cases intro: matches.intros)

lemma matches_Chr_iff: "matches (Chr c # p) m \<longleftrightarrow> (\<exists>m'. m = c # m' \<and> matches p m')"
  by (auto elim: matches.cases intro: matches.intros)

lemma matches_Digits_iff:
  "matches (DigitsGroup # p) m \<longleftrightarrow>
     (\<exists>d m'. m = d @ m' \<and> d \<noteq> [] \<and> list_all is_digit d \<and> matches p m')"
  by (subst matches.simps) auto

lemma matches_literal: "matches (map Chr a @ p) m \<longleftrightarrow> (\<exists>m'. m = a @ m' \<and> matches p m')"
  by (induction a arbitrary: m) (auto simp: matches_Chr_iff)

lemma matches_axis_pattern:
  "matches (axis_pattern axis) m \<longleftrightarrow>
     (\<exists>d1 d2. m = axis @ CHR '','' # d1 @ CHR '','' # d2 \<and>
        d1 \<noteq> [] \<and> list_all is_digit d1 \<and> d2 \<noteq> [] \<and> list_all is_digit d2)"
  unfolding axis_pattern_def
  by (simp add: matches_literal matches_Chr_iff matches_Digits_iff matches_Nil_iff) blast

lemma split_from_no_sep: "c \<notin> set a \<Longrightarrow> split_from c cur a = [rev cur @ a]"
  by (induction a arbitrary: cur) auto

lemma split_from_append:
  "c \<notin> set a \<Longrightarrow> split_from c cur (a @ c # b) = (rev cur @ a) # split_from c [] b"
  by (induction a arbitrary: cur) auto

lemma split_no_sep: "c \<notin> set a \<Longrightarrow> split c a = [a]"
  by (simp add: split_def split_from_no_sep)

lemma split_append: "c \<notin> set a \<Longrightarrow> split c (a @ c # b) = a # split c b"
  by (simp add: split_def split_from_append)

lemma digit_not_comma: "is_digit c \<Longrightarrow> c \<noteq> CHR '',''"
  by (auto simp: is_digit_def)

lemma digits_no_comma: "list_all is_digit d \<Longrightarrow> CHR '','' \<notin> set d"
  by (auto simp: list_all_iff dest: digit_not_comma)

lemma split_axis_match:
  assumes "CHR '','' \<notin> set axis" "list_all is_digit d1" "list_all is_digit d2"
  shows "drop 1 (split CHR '','' (axis @ CHR '','' # d1 @ CHR '','' # d2)) = [d1, d2]"
  using assms by (simp add: split_append split_no_sep digits_no_comma)

lemma digit_not_space: "is_digit c \<Longrightarrow> \<not> is_space c"
  by (auto simp: is_digit_def is_space_def)

lemma digit_not_sign: "is_digit c \<Longrightarrow> c \<noteq> CHR ''-'' \<and> c \<noteq> CHR ''+'' \<and> c \<noteq> CHR ''_''"
  by (auto simp: is_digit_def)

lemma strip_digits:
  assumes "list_all is_digit d"
  shows "strip d = d"
proof -
  have a: "dropWhile is_space d = d"
    using assms by (cases d) (auto dest: digit_not_space)
  have "list_all is_digit (rev d)" using assms by (simp add: list_all_iff)
  then have "dropWhile is_space (rev d) = rev d"
    by (cases "rev d") (auto dest: digit_not_space)
  with a show ?thesis by (simp add: strip_def)
qed

lemma int_body_digits: "d \<noteq> [] \<Longrightarrow> list_all is_digit d \<Longrightarrow> int_body d"
  by (induction d rule: int_body.induct) (auto dest: digit_not_sign)

lemma py_int_digits:
  assumes "d \<noteq> []" "list_all is_digit d"
  shows "py_int d = Inr (int (digits_value d))"
proof -
  from assms obtain c r where d: "d = c # r" and c: "is_digit c"
    by (cases d) auto
  then have "hd d \<noteq> CHR ''-''" "hd d \<noteq> CHR ''+''"
    using digit_not_sign by auto
  then show ?thesis
    using assms by (simp add: py_int_def strip_digits int_body_digits Let_def)
qed

lemma py_int_examples:
  "py_int [CHR 0x1C, CHR ''3''] = Inl ValueError"
  "py_int [CHR ''3'', CHR 0x1F] = Inl ValueError"
  "py_int '' 1_2 '' = Inr 12"
  "py_int ''-007'' = Inr (- 7)"
  "py_int ''+ 1'' = Inl ValueError"
  by (simp_all add: py_int_def strip_def is_space_def is_digit_def digits_value_def Let_def)

lemma pattern_lookup_axis_Some:
  assumes "fst (pattern_lookup (axis_pattern axis) s) = Some m"
  shows "\<exists>pre post d1 d2. s = pre @ m @ post \<and> m = axis @ CHR '','' # d1 @ CHR '','' # d2 \<and>
        d1 \<noteq> [] \<and> list_all is_digit d1 \<and> d2 \<noteq> [] \<and> list_all is_digit d2"
proof -
  from assms have "re_search (axis_pattern axis) s = Some m"
    by (auto simp: pattern_lookup_def split: option.splits)
  from re_search_sound[OF this] show ?thesis
    by (auto simp: matches_axis_pattern)
qed

lemma pattern_lookup_None_iff: "fst (pattern_lookup p s) = None \<longleftrightarrow> \<not> contains_match p s"
  using re_search_None_iff[of p s] by (auto simp: pattern_lookup_def split: option.splits)

lemma offset_extraction_fst:
  "fst (offset_extraction s) =
     (case fst (pattern_lookup pattern_sn s) of
        None \<Rightarrow> Inl AttributeError
      | Some sn \<Rightarrow>
          (case fst (pattern_lookup pattern_we s) of
             None \<Rightarrow> Inl AttributeError
           | Some we \<Rightarrow> Inr (drop 1 (split CHR '','' sn), drop 1 (split CHR '','' we))))"
  by (auto simp: offset_extraction_def split: prod.splits option.splits)

lemma offset_extraction_snd:
  "snd (offset_extraction s) = snd (pattern_lookup pattern_we s) @ snd (pattern_lookup pattern_sn s)"
  by (simp add: offset_extraction_def split: prod.splits)

lemma offset_extraction_both:
  assumes "contains_match pattern_we s" "contains_match pattern_sn s"
  shows "\<exists>y0 y1 x0 x1. fst (offset_extraction s) = Inr ([y0, y1], [x0, x1]) \<and>
           y0 \<noteq> [] \<and> list_all is_digit y0 \<and> y1 \<noteq> [] \<and> list_all is_digit y1 \<and>
           x0 \<noteq> [] \<and> list_all is_digit x0 \<and> x1 \<noteq> [] \<and> list_all is_digit x1 \<and>
           (\<exists>pre post. s = pre @ (''south_north'' @ CHR '','' # y0 @ CHR '','' # y1) @ post) \<and>
           (\<exists>pre post. s = pre @ (''west_east'' @ CHR '','' # x0 @ CHR '','' # x1) @ post)"
proof -
  from assms(1) obtain we where we: "fst (pattern_lookup pattern_we s) = Some we"
    using pattern_lookup_None_iff[of pattern_we s] by (cases "fst (pattern_lookup pattern_we s)") auto
  from assms(2) obtain sn where sn: "fst (pattern_lookup pattern_sn s) = Some sn"
    using pattern_lookup_None_iff[of pattern_sn s] by (cases "fst (pattern_lookup pattern_sn s)") auto
  from pattern_lookup_axis_Some[OF we[unfolded pattern_we_def]]
  obtain pre post x0 x1 where x: "s = pre @ we @ post" "we = ''west_east'' @ CHR '','' # x0 @ CHR '','' # x1"
      "x0 \<noteq> []" "list_all is_digit x0" "x1 \<noteq> []" "list_all is_digit x1"
    by blast
  from pattern_lookup_axis_Some[OF sn[unfolded pattern_sn_def]]
  obtain pre' post' y0 y1 where y: "s = pre' @ sn @ post'" "sn = ''south_north'' @ CHR '','' # y0 @ CHR '','' # y1"
      "y0 \<noteq> []" "list_all is_digit y0" "y1 \<noteq> []" "list_all is_digit y1"
    by blast
  have sx: "drop 1 (split CHR '','' we) = [x0, x1]"
    unfolding x(2) using x(4,6) by (intro split_axis_match) auto
  have sy: "drop 1 (split CHR '','' sn) = [y0, y1]"
    unfolding y(2) using y(4,6) by (intro split_axis_match) auto
  have "fst (offset_extraction s) = Inr ([y0, y1], [x0, x1])"
    by (simp only: offset_extraction_fst we sn option.case sx sy)
  with x y show ?thesis by blast
qed

section \<open>Slices and grids\<close>

lemma py_slice_inside:
  assumes "0 \<le> a" "a \<le> b" "b \<le> int (length xs)"
  shows "py_slice xs a b = map ((!) xs) [nat a ..< nat b]"
proof -
  have sa: "slice_bound (length xs) a = nat a" and sb: "slice_bound (length xs) b = nat b"
    using assms by (auto simp: slice_bound_def)
  have "drop (nat a) (take (nat b) xs) = map ((!) xs) [nat a ..< nat b]"
  proof (rule nth_equalityI)
    show "length (drop (nat a) (take (nat b) xs)) = length (map ((!) xs) [nat a ..< nat b])"
      using assms by auto
  next
    fix i assume "i < length (drop (nat a) (take (nat b) xs))"
    then show "drop (nat a) (take (nat b) xs) ! i = map ((!) xs) [nat a ..< nat b] ! i"
      using assms by auto
  qed
  then show ?thesis by (simp add: py_slice_def sa sb)
qed

lemma coordinate_slicing_parsed:
  assumes "py_int sx0 = Inr x0" "py_int sx1 = Inr x1" "py_int sy0 = Inr y0" "py_int sy1 = Inr y1"
  shows "coordinate_slicing ds_meta [sx0, sx1] [sy0, sy1] =
           Inr (py_slice (ref_x ds_meta) x0 (x1 + 1),
                py_slice (ref_y ds_meta) (int (length (ref_y ds_meta)) - y1 - 1)
                                         (int (length (ref_y ds_meta)) - y0))"
  using assms by (simp add: coordinate_slicing_def and_then_def py_index_def Let_def)

lemma length_concat_rows:
  "(\<forall>r \<in> set rows. length r = n) \<Longrightarrow> length (concat rows) = length rows * n"
  by (induction rows) auto

lemma nth_concat_rows:
  "(\<forall>r \<in> set rows. length r = n) \<Longrightarrow> i < length rows \<Longrightarrow> j < n \<Longrightarrow>
     concat rows ! (i * n + j) = rows ! i ! j"
proof (induction rows arbitrary: i)
  case Nil
  then show ?case by simp
next
  case (Cons r rows)
  show ?case
  proof (cases i)
    case 0
    with Cons.prems show ?thesis by (simp add: nth_append)
  next
    case (Suc k)
    with Cons.prems have "concat rows ! (k * n + j) = rows ! k ! j"
      by (intro Cons.IH) auto
    moreover have "Suc k * n + j = n + (k * n + j)" by simp
    ultimately show ?thesis
      using Cons.prems Suc by (simp add: nth_append)
  qed
qed

lemma cell_index_bound: "i < h \<Longrightarrow> j < w \<Longrightarrow> i * w + j < h * (w::nat)"
proof -
  assume a: "i < h" "j < w"
  then have "i * w + j < Suc i * w" by simp
  also have "\<dots> \<le> h * w" using a by (intro mult_le_mono1) simp
  finally show ?thesis .
qed

lemma meshgrid_X:
  "i < length y \<Longrightarrow> j < length x \<Longrightarrow> flat (fst (meshgrid x y)) ! (i * length x + j) = x ! j"
  using nth_concat_rows[of "map (\<lambda>yi. x) y" "length x" i j] by (simp add: meshgrid_def)

lemma meshgrid_Y:
  "i < length y \<Longrightarrow> j < length x \<Longrightarrow> flat (snd (meshgrid x y)) ! (i * length x + j) = y ! i"
  using nth_concat_rows[of "map (\<lambda>yi. map (\<lambda>xj. yi) x) y" "length x" i j] by (simp add: meshgrid_def)

lemma meshgrid_length:
  "length (flat (fst (meshgrid x y))) = length y * length x"
  "length (flat (snd (meshgrid x y))) = length y * length x"
  using length_concat_rows[of "map (\<lambda>yi. x) y" "length x"]
        length_concat_rows[of "map (\<lambda>yi. map (\<lambda>xj. yi) x) y" "length x"]
  by (simp_all add: meshgrid_def)

lemma reprojection_unfold:
  "reprojection T x y = transform T (fst (meshgrid x y)) (snd (meshgrid x y))"
  by (simp add: reprojection_def split: prod.splits)

lemma reprojection_shape:
  "shape2 (fst (reprojection T x y)) = (length y, length x)"
  "shape2 (snd (reprojection T x y)) = (length y, length x)"
  by (simp_all add: reprojection_unfold transform_def meshgrid_def)

lemma reprojection_length:
  "length (flat (fst (reprojection T x y))) = length y * length x"
  "length (flat (snd (reprojection T x y))) = length y * length x"
  by (simp_all add: reprojection_unfold transform_def meshgrid_length)

lemma reprojection_nth:
  assumes "i < length y" "j < length x"
  shows "flat (fst (reprojection T x y)) ! (i * length x + j) = fst (T (x ! j) (y ! i))"
    and "flat (snd (reprojection T x y)) ! (i * length x + j) = snd (T (x ! j) (y ! i))"
  using assms cell_index_bound[OF assms]
  by (simp_all add: reprojection_unfold transform_def meshgrid_length meshgrid_X meshgrid_Y)

text \<open>
  Claim C2. Let the two row offsets parse to \<open>row_start\<close> and \<open>row_end\<close> with
  \<open>0 \<le> row_start \<le> row_end < H_ref\<close>, where \<open>H_ref\<close> is the length of the reference row
  coordinates (and let the two column offsets parse). Then the slicing cell returns, as
  its row slice, \<^verbatim>\<open>row_coords[H_ref - row_end - 1 : H_ref - row_start]\<close>; these are the
  entries at the positions \<open>H_ref - row_end - 1\<close> up to \<open>H_ref - row_start - 1\<close>, in this
  order, \<open>row_end - row_start + 1\<close> of them. For the reference rows \<open>[0, \<dots>, 9]\<close> and the
  offsets \<open>(2, 5)\<close> the row slice is \<open>[4, 5, 6, 7]\<close>, of length 4.
\<close>

theorem row_slice_formula:
  assumes "py_int sx0 = Inr col_start" "py_int sx1 = Inr col_end"
      and "py_int sy0 = Inr row_start" "py_int sy1 = Inr row_end"
      and "0 \<le> row_start" "row_start \<le> row_end" "row_end < int (length (ref_y ds_meta))"
  shows "(\<exists>x_sub y_sub.
            coordinate_slicing ds_meta [sx0, sx1] [sy0, sy1] = Inr (x_sub, y_sub) \<and>
            y_sub = py_slice (ref_y ds_meta) (int (length (ref_y ds_meta)) - row_end - 1)
                                             (int (length (ref_y ds_meta)) - row_start) \<and>
            y_sub = map ((!) (ref_y ds_meta))
                      [nat (int (length (ref_y ds_meta)) - row_end - 1) ..<
                       nat (int (length (ref_y ds_meta)) - row_start)] \<and>
            int (length y_sub) = row_end - row_start + 1) \<and>
         (\<exists>x_sub.
            coordinate_slicing \<lparr>ref_x = [] :: int list, ref_y = [0, 1, 2, 3, 4, 5, 6, 7, 8, 9]\<rparr>
              [sx0, sx1] [''2'', ''5''] = Inr (x_sub, [4, 5, 6, 7])) \<and>
         length [4, 5, 6, 7 :: int] = 4"
proof -
  let ?H = "int (length (ref_y ds_meta))"
  let ?y = "py_slice (ref_y ds_meta) (?H - row_end - 1) (?H - row_start)"
  have eq: "?y = map ((!) (ref_y ds_meta)) [nat (?H - row_end - 1) ..< nat (?H - row_start)]"
    using assms(5-7) by (intro py_slice_inside) auto
  have len: "int (length ?y) = row_end - row_start + 1"
    unfolding eq using assms(5-7) by simp
  note cs = coordinate_slicing_parsed[OF assms(1-4), of ds_meta]
  have general: "\<exists>x_sub y_sub.
           coordinate_slicing ds_meta [sx0, sx1] [sy0, sy1] = Inr (x_sub, y_sub) \<and>
           y_sub = ?y \<and>
           y_sub = map ((!) (ref_y ds_meta)) [nat (?H - row_end - 1) ..< nat (?H - row_start)] \<and>
           int (length y_sub) = row_end - row_start + 1"
    using cs eq len by blast
  have p2: "py_int ''2'' = Inr 2" and p5: "py_int ''5'' = Inr 5"
    by (simp_all add: py_int_digits is_digit_def digits_value_def)
  have "py_slice [0, 1, 2, 3, 4, 5, 6, 7, 8, 9 :: int] (10 - 5 - 1) (10 - 2) = [4, 5, 6, 7]"
    by (simp add: py_slice_def slice_bound_def)
  with coordinate_slicing_parsed[OF assms(1,2) p2 p5,
      of "\<lparr>ref_x = [] :: int list, ref_y = [0, 1, 2, 3, 4, 5, 6, 7, 8, 9]\<rparr>"]
  have example: "\<exists>x_sub.
            coordinate_slicing \<lparr>ref_x = [] :: int list, ref_y = [0, 1, 2, 3, 4, 5, 6, 7, 8, 9]\<rparr>
              [sx0, sx1] [''2'', ''5''] = Inr (x_sub, [4, 5, 6, 7])"
    by simp
  have "length [4, 5, 6, 7 :: int] = 4"
    by simp
  with general example show ?thesis
    by (intro conjI)
qed

theorem row_slice_formula_witness:
  "py_int ''2'' = Inr 2 \<and> py_int ''5'' = Inr 5 \<and> (0 :: int) \<le> 2 \<and> (2 :: int) \<le> 5 \<and>
   (5 :: int) < int (length [0, 1, 2, 3, 4, 5, 6, 7, 8, 9 :: int]) \<and>
   (\<exists>x_sub y_sub.
      coordinate_slicing \<lparr>ref_x = [] :: int list, ref_y = [0, 1, 2, 3, 4, 5, 6, 7, 8, 9]\<rparr>
        [''2'', ''5''] [''2'', ''5''] = Inr (x_sub, y_sub) \<and>
      int (length y_sub) = 5 - 2 + 1)"
proof -
  have p2: "py_int ''2'' = Inr 2" and p5: "py_int ''5'' = Inr 5"
    by (simp_all add: py_int_digits is_digit_def digits_value_def)
  have b: "(0 :: int) \<le> 2" "(2 :: int) \<le> 5"
    by simp_all
  have c: "(5 :: int) < int (length (ref_y \<lparr>ref_x = [] :: int list, ref_y = [0, 1, 2, 3, 4, 5, 6, 7, 8, 9]\<rparr>))"
    by simp
  from row_slice_formula[OF p2 p5 p2 p5 b c]
  have "\<exists>x_sub y_sub.
      coordinate_slicing \<lparr>ref_x = [] :: int list, ref_y = [0, 1, 2, 3, 4, 5, 6, 7, 8, 9]\<rparr>
        [''2'', ''5''] [''2'', ''5''] = Inr (x_sub, y_sub) \<and>
      int (length y_sub) = 5 - 2 + 1"
    by blast
  with p2 p5 show ?thesis by simp
qed

section \<open>Lookup, extraction and reprojection: the claims\<close>

lemma and_then_Inl [simp]: "and_then (Inl e) f = Inl e"
  by (simp add: and_then_def)

lemma and_then_Inr [simp]: "and_then (Inr v) f = f v"
  by (simp add: and_then_def)

lemma search_we_example: "re_search pattern_we ''west_east,12,10 south_north,23,20'' = Some ''west_east,12,10''"
  by code_simp

lemma search_sn_example: "re_search pattern_sn ''west_east,12,10 south_north,23,20'' = Some ''south_north,23,20''"
  by code_simp

lemma search_sn_absent: "re_search pattern_sn ''west_east,10,12'' = None"
  by code_simp

lemma search_we_short: "re_search pattern_we ''west_east,10,12'' = Some ''west_east,10,12''"
  by code_simp

text \<open>
  Claim C10. When the pattern occurs nowhere in the text, \<open>pattern_lookup\<close> prints
  \<^verbatim>\<open>No match found.\<close> and returns \<^verbatim>\<open>None\<close>. When it occurs, \<open>pattern_lookup\<close> prints
  nothing and returns one string, a piece of the text that the pattern matches. When either
  lookup of the extraction cell returned \<^verbatim>\<open>None\<close>, the cell's \<^verbatim>\<open>split\<close> raises
  \<^verbatim>\<open>AttributeError\<close>. For an axis pattern the returned string is the axis token, a comma,
  digits, a comma and digits: the whole matched text, not a pair of integers.
\<close>

theorem pattern_lookup_behaviour:
  "(\<not> contains_match p s \<longrightarrow> pattern_lookup p s = (None, [''No match found.''])) \<and>
   (contains_match p s \<longrightarrow>
      (\<exists>pre m post. pattern_lookup p s = (Some m, []) \<and> s = pre @ m @ post \<and> matches p m)) \<and>
   (fst (pattern_lookup pattern_sn s) = None \<or> fst (pattern_lookup pattern_we s) = None \<longrightarrow>
      fst (offset_extraction s) = Inl AttributeError) \<and>
   (\<forall>m. fst (pattern_lookup (axis_pattern axis) s) = Some m \<longrightarrow>
      (\<exists>d1 d2. m = axis @ '','' @ d1 @ '','' @ d2 \<and>
         d1 \<noteq> [] \<and> list_all is_digit d1 \<and> d2 \<noteq> [] \<and> list_all is_digit d2))"
proof (intro conjI impI allI)
  assume "\<not> contains_match p s"
  then have "re_search p s = None" by (simp add: re_search_None_iff)
  then show "pattern_lookup p s = (None, [''No match found.''])"
    by (simp add: pattern_lookup_def)
next
  assume "contains_match p s"
  then obtain m where m: "re_search p s = Some m"
    using re_search_None_iff[of p s] by (cases "re_search p s") auto
  from re_search_sound[OF m] m
  show "\<exists>pre m post. pattern_lookup p s = (Some m, []) \<and> s = pre @ m @ post \<and> matches p m"
    by (auto simp: pattern_lookup_def)
next
  assume "fst (pattern_lookup pattern_sn s) = None \<or> fst (pattern_lookup pattern_we s) = None"
  then show "fst (offset_extraction s) = Inl AttributeError"
    by (auto simp: offset_extraction_fst split: option.splits)
next
  fix m assume "fst (pattern_lookup (axis_pattern axis) s) = Some m"
  from pattern_lookup_axis_Some[OF this]
  show "\<exists>d1 d2. m = axis @ '','' @ d1 @ '','' @ d2 \<and>
         d1 \<noteq> [] \<and> list_all is_digit d1 \<and> d2 \<noteq> [] \<and> list_all is_digit d2"
    by auto
qed

theorem pattern_lookup_behaviour_witness:
  "\<not> contains_match pattern_sn ''west_east,10,12'' \<and>
   pattern_lookup pattern_sn ''west_east,10,12'' = (None, [''No match found.'']) \<and>
   fst (offset_extraction ''west_east,10,12'') = Inl AttributeError \<and>
   contains_match pattern_we ''west_east,10,12'' \<and>
   pattern_lookup pattern_we ''west_east,10,12'' = (Some ''west_east,10,12'', [])"
proof -
  have a: "\<not> contains_match pattern_sn ''west_east,10,12''"
    using re_search_None_iff[of pattern_sn "''west_east,10,12''"] search_sn_absent by simp
  have b: "contains_match pattern_we ''west_east,10,12''"
    using re_search_None_iff[of pattern_we "''west_east,10,12''"] search_we_short by simp
  have c: "pattern_lookup pattern_we ''west_east,10,12'' = (Some ''west_east,10,12'', [])"
    by (simp only: pattern_lookup_def search_we_short option.case)
  from pattern_lookup_behaviour[of pattern_sn "''west_east,10,12''" "''west_east''"] a
  have "pattern_lookup pattern_sn ''west_east,10,12'' = (None, [''No match found.''])"
    and "fst (offset_extraction ''west_east,10,12'') = Inl AttributeError"
    by simp_all
  with a b c show ?thesis by simp
qed

text \<open>
  Claim C6. For every \<open>x\<close> and \<open>y\<close> the reprojection cell yields two arrays, longitude and
  latitude, both of shape \<open>(len(y), len(x))\<close>, and the entry in row \<open>i\<close> and column \<open>j\<close> of
  each is the transform of the point \<open>(x[j], y[i])\<close>.
\<close>

theorem reprojection_shape_aligned:
  "reprojection T x y = (lon, lat) \<Longrightarrow>
     shape2 lon = (length y, length x) \<and> shape2 lat = (length y, length x) \<and>
     length (flat lon) = length y * length x \<and> length (flat lat) = length y * length x \<and>
     (\<forall>i < length y. \<forall>j < length x.
        flat lon ! (i * length x + j) = fst (T (x ! j) (y ! i)) \<and>
        flat lat ! (i * length x + j) = snd (T (x ! j) (y ! i)))"
  using reprojection_shape[of T x y] reprojection_length[of T x y] reprojection_nth[of _ y _ x T]
  by simp

theorem reprojection_shape_aligned_witness:
  "reprojection (\<lambda>a b. (a + b, a * b)) [1, 2, 3 :: int] [10, 20] =
     (\<lparr>shape2 = (2, 3), flat = [11, 12, 13, 21, 22, 23]\<rparr>,
      \<lparr>shape2 = (2, 3), flat = [10, 20, 30, 20, 40, 60]\<rparr>) \<and>
   [11, 12, 13, 21, 22, 23 :: int] ! (1 * length [1, 2, 3 :: int] + 2) = 3 + 20 \<and>
   [10, 20, 30, 20, 40, 60 :: int] ! (1 * length [1, 2, 3 :: int] + 2) = 3 * 20"
proof -
  have r: "reprojection (\<lambda>a b. (a + b, a * b)) [1, 2, 3 :: int] [10, 20] =
     (\<lparr>shape2 = (2, 3), flat = [11, 12, 13, 21, 22, 23]\<rparr>,
      \<lparr>shape2 = (2, 3), flat = [10, 20, 30, 20, 40, 60]\<rparr>)"
    by (simp add: reprojection_def meshgrid_def transform_def)
  have "1 < length [10, 20 :: int]" "2 < length [1, 2, 3 :: int]"
    by simp_all
  from reprojection_shape_aligned[OF r, THEN conjunct2, THEN conjunct2, THEN conjunct2,
      THEN conjunct2, rule_format, OF this] r
  show ?thesis by simp
qed

text \<open>
  Claim C4, as stated, does not hold: the text below contains both offset substrings, and
  the extraction returns the column pair \<open>(12, 10)\<close>, whose start exceeds its end.
\<close>

theorem offset_extraction_order_counterexample:
  "contains_match pattern_we ''west_east,12,10 south_north,23,20'' \<and>
   contains_match pattern_sn ''west_east,12,10 south_north,23,20'' \<and>
   fst (offset_extraction ''west_east,12,10 south_north,23,20'') = Inr ([''23'', ''20''], [''12'', ''10'']) \<and>
   py_int ''12'' = Inr 12 \<and> py_int ''10'' = Inr 10 \<and> \<not> (12 \<le> (10 :: int))"
proof -
  have a: "contains_match pattern_we ''west_east,12,10 south_north,23,20''"
    using re_search_None_iff[of pattern_we "''west_east,12,10 south_north,23,20''"] search_we_example by simp
  have b: "contains_match pattern_sn ''west_east,12,10 south_north,23,20''"
    using re_search_None_iff[of pattern_sn "''west_east,12,10 south_north,23,20''"] search_sn_example by simp
  have c: "fst (offset_extraction ''west_east,12,10 south_north,23,20'') = Inr ([''23'', ''20''], [''12'', ''10''])"
    by (simp only: offset_extraction_fst pattern_lookup_def search_we_example search_sn_example
          option.case fst_conv) (simp add: split_def)
  have d: "py_int ''12'' = Inr 12" "py_int ''10'' = Inr 10"
    by (simp_all add: py_int_digits is_digit_def digits_value_def)
  from a b c d show ?thesis by simp
qed

text \<open>
  Claim C4, amended. For every text that contains both axis patterns, the extraction cell
  returns for each axis a list of two non-empty strings of decimal digits, the two numbers
  of an occurrence of that axis's pattern in the text; \<^verbatim>\<open>int()\<close> reads each of them as a
  non-negative integer. Nothing is said about the order of start and end.
\<close>

theorem offset_extraction_digit_pairs:
  assumes "contains_match pattern_we s" "contains_match pattern_sn s"
  shows "\<exists>y0 y1 x0 x1.
           fst (offset_extraction s) = Inr ([y0, y1], [x0, x1]) \<and>
           (\<forall>d \<in> {y0, y1, x0, x1}.
              d \<noteq> [] \<and> list_all is_digit d \<and> py_int d = Inr (int (digits_value d)) \<and>
              0 \<le> int (digits_value d)) \<and>
           (\<exists>pre post. s = pre @ (''south_north'' @ '','' @ y0 @ '','' @ y1) @ post) \<and>
           (\<exists>pre post. s = pre @ (''west_east'' @ '','' @ x0 @ '','' @ x1) @ post)"
proof -
  from offset_extraction_both[OF assms] obtain y0 y1 x0 x1 where
    e: "fst (offset_extraction s) = Inr ([y0, y1], [x0, x1])" and
    d: "y0 \<noteq> []" "list_all is_digit y0" "y1 \<noteq> []" "list_all is_digit y1"
       "x0 \<noteq> []" "list_all is_digit x0" "x1 \<noteq> []" "list_all is_digit x1" and
    o: "\<exists>pre post. s = pre @ (''south_north'' @ CHR '','' # y0 @ CHR '','' # y1) @ post"
       "\<exists>pre post. s = pre @ (''west_east'' @ CHR '','' # x0 @ CHR '','' # x1) @ post"
    by blast
  have p: "d \<noteq> [] \<and> list_all is_digit d \<and> py_int d = Inr (int (digits_value d)) \<and>
              0 \<le> int (digits_value d)" if "d \<noteq> []" "list_all is_digit d" for d
    using that by (simp add: py_int_digits)
  have q: "\<forall>d \<in> {y0, y1, x0, x1}.
              d \<noteq> [] \<and> list_all is_digit d \<and> py_int d = Inr (int (digits_value d)) \<and>
              0 \<le> int (digits_value d)"
    using p[OF d(1,2)] p[OF d(3,4)] p[OF d(5,6)] p[OF d(7,8)] by blast
  have o1: "\<exists>pre post. s = pre @ (''south_north'' @ '','' @ y0 @ '','' @ y1) @ post"
    using o(1) by (simp del: append_assoc)
  have o2: "\<exists>pre post. s = pre @ (''west_east'' @ '','' @ x0 @ '','' @ x1) @ post"
    using o(2) by (simp del: append_assoc)
  from e q o1 o2 show ?thesis by blast
qed

theorem offset_extraction_digit_pairs_witness:
  "contains_match pattern_we ''west_east,12,10 south_north,23,20'' \<and>
   contains_match pattern_sn ''west_east,12,10 south_north,23,20'' \<and>
   (\<exists>y0 y1 x0 x1.
      fst (offset_extraction ''west_east,12,10 south_north,23,20'') = Inr ([y0, y1], [x0, x1]) \<and>
      py_int y0 = Inr (int (digits_value y0)) \<and> py_int x1 = Inr (int (digits_value x1)))"
proof -
  have a: "contains_match pattern_we ''west_east,12,10 south_north,23,20''"
    using re_search_None_iff[of pattern_we "''west_east,12,10 south_north,23,20''"] search_we_example by simp
  have b: "contains_match pattern_sn ''west_east,12,10 south_north,23,20''"
    using re_search_None_iff[of pattern_sn "''west_east,12,10 south_north,23,20''"] search_sn_example by simp
  from offset_extraction_digit_pairs[OF a b] obtain y0 y1 x0 x1 where
    e: "fst (offset_extraction ''west_east,12,10 south_north,23,20'') = Inr ([y0, y1], [x0, x1])" and
    q: "\<forall>d \<in> {y0, y1, x0, x1}.
              d \<noteq> [] \<and> list_all is_digit d \<and> py_int d = Inr (int (digits_value d)) \<and>
              0 \<le> int (digits_value d)"
    by blast
  from q have "py_int y0 = Inr (int (digits_value y0))" "py_int x1 = Inr (int (digits_value x1))"
    by simp_all
  with e have "\<exists>y0 y1 x0 x1.
      fst (offset_extraction ''west_east,12,10 south_north,23,20'') = Inr ([y0, y1], [x0, x1]) \<and>
      py_int y0 = Inr (int (digits_value y0)) \<and> py_int x1 = Inr (int (digits_value x1))"
    by blast
  with a b show ?thesis by (intro conjI)
qed

section \<open>A missing pattern\<close>

lemma search_we_absent: "re_search pattern_we ''subset south_north,20,23'' = None"
  by code_simp

lemma search_sn_present: "re_search pattern_sn ''subset south_north,20,23'' = Some ''south_north,20,23''"
  by code_simp

lemma notebook_history:
  "history_attr ds = Inr h \<Longrightarrow>
     notebook T ds ds_meta =
       and_then (fst (offset_extraction h)) (\<lambda>(y_index, x_index).
       and_then (coordinate_slicing ds_meta x_index y_index) (\<lambda>(x, y).
       and_then (rename_dims_cell ds) (\<lambda>ds.
         (let (lon, lat) = reprojection T x y
          in annotate lon lat x y ds))))"
  by (simp add: notebook_def)

text \<open>
  Claim C1, as stated, does not hold: the text below lacks the column-axis pattern, and the
  extraction cell fails with \<^verbatim>\<open>AttributeError\<close>, not with a \<open>MetadataParseError\<close> that names
  the axis.
\<close>

theorem missing_pattern_counterexample:
  "\<not> contains_match pattern_we ''subset south_north,20,23'' \<and>
   fst (offset_extraction ''subset south_north,20,23'') = Inl AttributeError \<and>
   fst (offset_extraction ''subset south_north,20,23'') \<noteq> Inl (MetadataParseError ''west_east'')"
proof -
  have a: "\<not> contains_match pattern_we ''subset south_north,20,23''"
    using re_search_None_iff[of pattern_we "''subset south_north,20,23''"] search_we_absent by simp
  have "fst (offset_extraction ''subset south_north,20,23'') = Inl AttributeError"
    by (simp only: offset_extraction_fst pattern_lookup_def search_we_absent search_sn_present
          option.case fst_conv)
  with a show ?thesis by simp
qed

text \<open>
  Claim C1, amended. For every provenance text that lacks the pattern of one of the two
  axes, a lookup returns \<^verbatim>\<open>None\<close> and prints \<^verbatim>\<open>No match found.\<close>, the extraction cell
  fails with \<^verbatim>\<open>AttributeError\<close>, and the run ends there: no coordinates are derived and
  the notebook as a whole ends with that exception, before the slicing cell.
\<close>

theorem missing_pattern_stops_run:
  assumes "\<not> contains_match pattern_we h \<or> \<not> contains_match pattern_sn h"
  shows "(fst (pattern_lookup pattern_we h) = None \<or> fst (pattern_lookup pattern_sn h) = None) \<and>
         fst (offset_extraction h) = Inl AttributeError \<and>
         ''No match found.'' \<in> set (snd (offset_extraction h)) \<and>
         derived_coordinates T h ds_meta = Inl AttributeError \<and>
         (history_attr ds = Inr h \<longrightarrow> notebook T ds ds_meta = Inl AttributeError)"
proof -
  from assms have n: "re_search pattern_we h = None \<or> re_search pattern_sn h = None"
    by (simp add: re_search_None_iff)
  then have e: "fst (offset_extraction h) = Inl AttributeError"
    by (auto simp: offset_extraction_fst pattern_lookup_def split: option.splits)
  from n have "''No match found.'' \<in> set (snd (offset_extraction h))"
    by (auto simp: offset_extraction_snd pattern_lookup_def split: option.splits)
  moreover from assms have "fst (pattern_lookup pattern_we h) = None \<or> fst (pattern_lookup pattern_sn h) = None"
    by (simp add: pattern_lookup_None_iff)
  ultimately show ?thesis
    using e by (simp add: derived_coordinates_def notebook_history)
qed

theorem missing_pattern_stops_run_witness:
  "\<not> contains_match pattern_we ''subset south_north,20,23'' \<and>
   history_attr \<lparr>variables = [], coord_names = {},
       attrs = [(''history'', AttrStr ''subset south_north,20,23'')]\<rparr> = Inr ''subset south_north,20,23'' \<and>
   notebook (\<lambda>a b. (a, b))
     \<lparr>variables = [], coord_names = {}, attrs = [(''history'', AttrStr ''subset south_north,20,23'')]\<rparr>
     \<lparr>ref_x = [0 :: int], ref_y = [0]\<rparr> = Inl AttributeError"
proof -
  have a: "\<not> contains_match pattern_we ''subset south_north,20,23''"
    using re_search_None_iff[of pattern_we "''subset south_north,20,23''"] search_we_absent by simp
  have h: "history_attr \<lparr>variables = [], coord_names = {},
       attrs = [(''history'', AttrStr ''subset south_north,20,23'')]\<rparr> = Inr ''subset south_north,20,23''"
    by (simp add: history_attr_def)
  note t = missing_pattern_stops_run[OF disjI1[OF a], of "\<lambda>a b. (a, b)" "\<lparr>ref_x = [0 :: int], ref_y = [0]\<rparr>"
      "\<lparr>variables = [], coord_names = {}, attrs = [(''history'', AttrStr ''subset south_north,20,23'')]\<rparr>"]
  have n: "notebook (\<lambda>a b. (a, b))
     \<lparr>variables = [], coord_names = {}, attrs = [(''history'', AttrStr ''subset south_north,20,23'')]\<rparr>
     \<lparr>ref_x = [0 :: int], ref_y = [0]\<rparr> = Inl AttributeError"
    by (rule t[THEN conjunct2, THEN conjunct2, THEN conjunct2, THEN conjunct2, THEN mp, OF h])
  show ?thesis by (rule conjI[OF a conjI[OF h n]])
qed

section \<open>Dimension sizes\<close>

lemma add_dims_error: "add_dims sc D ps = Inl e \<Longrightarrow> e = ValueError"
  by (induction sc D ps rule: add_dims.induct) (auto split: if_splits option.splits)

lemma add_dims_Inr:
  "distinct (map fst D) \<Longrightarrow> add_dims sc D ps = Inr D' \<Longrightarrow>
     set D' = set D \<union> set ps \<and> distinct (map fst D') \<and> fst ` set ps \<inter> set sc = {}"
proof (induction sc D ps rule: add_dims.induct)
  case (1 sc dims)
  then show ?case by simp
next
  case (2 sc dims d n ps)
  from "2.prems"(2) have nsc: "d \<notin> set sc"
    by (auto split: if_splits)
  show ?case
  proof (cases "map_of dims d")
    case None
    then have "d \<notin> fst ` set dims"
      by (simp add: map_of_eq_None_iff)
    then have dist: "distinct (map fst (dims @ [(d, n)]))"
      using "2.prems"(1) by auto
    from "2.prems"(2) nsc None have "add_dims sc (dims @ [(d, n)]) ps = Inr D'"
      by simp
    from "2.IH"(1)[OF nsc None dist this] nsc show ?thesis
      by auto
  next
    case (Some n')
    with "2.prems"(2) nsc have eq: "n' = n" and r: "add_dims sc dims ps = Inr D'"
      by (auto split: if_splits)
    from Some have "(d, n') \<in> set dims"
      by (rule map_of_SomeD)
    moreover from eq have "\<not> n' \<noteq> n" by simp
    note "2.IH"(2)[OF nsc Some this "2.prems"(1) r]
    ultimately show ?thesis
      using nsc eq by auto
  qed
qed

lemma add_dims_ok:
  "distinct (map fst D) \<Longrightarrow> fst ` set ps \<inter> set sc = {} \<Longrightarrow> single_valued (set D \<union> set ps) \<Longrightarrow>
     \<exists>D'. add_dims sc D ps = Inr D'"
proof (induction sc D ps rule: add_dims.induct)
  case (1 sc dims)
  then show ?case by simp
next
  case (2 sc dims d n ps)
  from "2.prems"(2) have nsc: "d \<notin> set sc" and rest: "fst ` set ps \<inter> set sc = {}"
    by auto
  show ?case
  proof (cases "map_of dims d")
    case None
    then have "d \<notin> fst ` set dims"
      by (simp add: map_of_eq_None_iff)
    then have dist: "distinct (map fst (dims @ [(d, n)]))"
      using "2.prems"(1) by auto
    have "single_valued (set (dims @ [(d, n)]) \<union> set ps)"
      using "2.prems"(3) by (simp add: Un_commute insert_commute)
    from "2.IH"(1)[OF nsc None dist rest this] nsc None show ?thesis
      by simp
  next
    case (Some n')
    then have "(d, n') \<in> set dims"
      by (rule map_of_SomeD)
    then have eq: "n' = n"
      using "2.prems"(3) by (auto simp: single_valued_def)
    then have neq: "\<not> n' \<noteq> n" by simp
    have "single_valued (set dims \<union> set ps)"
      using "2.prems"(3) by (rule single_valued_subset[rotated]) auto
    from "2.IH"(2)[OF nsc Some neq "2.prems"(1) rest this] nsc Some eq show ?thesis
      by simp
  qed
qed

lemma single_valued_distinct: "distinct (map fst D) \<Longrightarrow> single_valued (set D)"
  by (auto simp: single_valued_def dest: eq_key_imp_eq_value)

lemma calculate_dimensions_error: "calculate_dimensions vars = Inl e \<Longrightarrow> e = ValueError"
  unfolding calculate_dimensions_def by (rule add_dims_error)

lemma calculate_dimensions_Inr:
  assumes "calculate_dimensions vars = Inr D"
  shows "set D = set (dim_pairs vars)" and "distinct (map fst D)"
    and "fst ` set (dim_pairs vars) \<inter> set (scalar_vars vars) = {}"
    and "single_valued (set (dim_pairs vars))"
proof -
  from add_dims_Inr[of "[]" "scalar_vars vars" "dim_pairs vars" D] assms
  have a: "set D = set (dim_pairs vars)" and b: "distinct (map fst D)"
    and c: "fst ` set (dim_pairs vars) \<inter> set (scalar_vars vars) = {}"
    by (simp_all add: calculate_dimensions_def)
  show "set D = set (dim_pairs vars)" by (rule a)
  show "distinct (map fst D)" by (rule b)
  show "fst ` set (dim_pairs vars) \<inter> set (scalar_vars vars) = {}" by (rule c)
  show "single_valued (set (dim_pairs vars))"
    using single_valued_distinct[OF b] a by simp
qed

lemma calculate_dimensions_ok:
  assumes "fst ` set (dim_pairs vars) \<inter> set (scalar_vars vars) = {}"
      and "single_valued (set (dim_pairs vars))"
  shows "\<exists>D. calculate_dimensions vars = Inr D"
  using add_dims_ok[of "[]" "dim_pairs vars" "scalar_vars vars"] assms
  by (simp add: calculate_dimensions_def)

lemma calculate_dimensions_conflict:
  assumes "(d, n) \<in> set (dim_pairs vars)" "(d, n') \<in> set (dim_pairs vars)" "n \<noteq> n'"
  shows "calculate_dimensions vars = Inl ValueError"
proof (cases "calculate_dimensions vars")
  case (Inl e)
  then show ?thesis using calculate_dimensions_error by blast
next
  case (Inr D)
  from calculate_dimensions_Inr(4)[OF Inr] assms show ?thesis
    by (auto simp: single_valued_def)
qed

lemma calculate_dimensions_lookup:
  assumes "calculate_dimensions vars = Inr D"
  shows "map_of D d = Some n \<longleftrightarrow> (d, n) \<in> set (dim_pairs vars)"
  using calculate_dimensions_Inr(1,2)[OF assms] by simp

lemma set_dim_pairs:
  "set (dim_pairs vars) = (\<Union>(k, var) \<in> set vars. set (zip (vdims var) (vshape var)))"
  by (auto simp: dim_pairs_def)

lemma set_scalar_vars:
  "set (scalar_vars vars) = {k. \<exists>var. (k, var) \<in> set vars \<and> vdims var = []}"
  by (auto simp: scalar_vars_def image_iff)

lemma set_update_subset: "set (AList.update k v al) \<subseteq> insert (k, v) (set al)"
  by (induction al) auto

lemma set_update_other: "(k', v') \<in> set al \<Longrightarrow> k' \<noteq> k \<Longrightarrow> (k', v') \<in> set (AList.update k v al)"
  by (induction al) auto

lemma set_update_self: "(k, v) \<in> set (AList.update k v al)"
  by (induction al) auto

lemma dim_pairs_update_subset:
  "set (dim_pairs (AList.update k var vars)) \<subseteq> set (zip (vdims var) (vshape var)) \<union> set (dim_pairs vars)"
  using set_update_subset[of k var vars] by (fastforce simp: set_dim_pairs)

lemma dim_pairs_update_self:
  "set (zip (vdims var) (vshape var)) \<subseteq> set (dim_pairs (AList.update k var vars))"
  using set_update_self[of k var vars] by (fastforce simp: set_dim_pairs)

lemma dim_pairs_update_other:
  "(k', v') \<in> set vars \<Longrightarrow> k' \<noteq> k \<Longrightarrow>
     set (zip (vdims v') (vshape v')) \<subseteq> set (dim_pairs (AList.update k var vars))"
  using set_update_other[of k' v' vars k var] by (fastforce simp: set_dim_pairs)

lemma scalar_vars_update_subset:
  "vdims var \<noteq> [] \<Longrightarrow> set (scalar_vars (AList.update k var vars)) \<subseteq> set (scalar_vars vars)"
  using set_update_subset[of k var vars] by (fastforce simp: set_scalar_vars)

lemma calculate_dimensions_update_ok:
  assumes "calculate_dimensions vars = Inr D" "vdims var \<noteq> []"
      and "set (zip (vdims var) (vshape var)) \<subseteq> set D"
  shows "\<exists>D'. calculate_dimensions (AList.update k var vars) = Inr D' \<and>
           set (zip (vdims var) (vshape var)) \<subseteq> set D' \<and> set D' \<subseteq> set D"
proof -
  note D = calculate_dimensions_Inr[OF assms(1)]
  have sub: "set (dim_pairs (AList.update k var vars)) \<subseteq> set D"
    using dim_pairs_update_subset[of k var vars] assms(3) D(1) by auto
  have sv: "single_valued (set (dim_pairs (AList.update k var vars)))"
    using single_valued_distinct[OF D(2)] sub by (rule single_valued_subset[rotated])
  have "fst ` set (dim_pairs (AList.update k var vars)) \<subseteq> fst ` set (dim_pairs vars)"
    using sub D(1) by blast
  moreover note scalar_vars_update_subset[OF assms(2), of k vars]
  ultimately have
    "fst ` set (dim_pairs (AList.update k var vars)) \<inter> set (scalar_vars (AList.update k var vars)) = {}"
    using D(3) by blast
  from calculate_dimensions_ok[OF this sv] obtain D' where
    D': "calculate_dimensions (AList.update k var vars) = Inr D'" by blast
  have e: "set D' = set (dim_pairs (AList.update k var vars))"
    by (rule calculate_dimensions_Inr(1)[OF D'])
  have "set (zip (vdims var) (vshape var)) \<subseteq> set D'"
    unfolding e by (rule dim_pairs_update_self)
  moreover have "set D' \<subseteq> set D"
    unfolding e by (rule sub)
  ultimately show ?thesis
    using D' by blast
qed

lemma calculate_dimensions_update_conflict:
  assumes "(k', v') \<in> set vars" "k' \<noteq> k" "(d, n) \<in> set (zip (vdims v') (vshape v'))"
      and "(d, n') \<in> set (zip (vdims var) (vshape var))" "n \<noteq> n'"
  shows "calculate_dimensions (AList.update k var vars) = Inl ValueError"
proof -
  have "(d, n) \<in> set (dim_pairs (AList.update k var vars))"
    using dim_pairs_update_other[OF assms(1,2), of var] assms(3) by auto
  moreover have "(d, n') \<in> set (dim_pairs (AList.update k var vars))"
    using dim_pairs_update_self[of var k vars] assms(4) by auto
  ultimately show ?thesis
    using assms(5) by (rule calculate_dimensions_conflict)
qed

section \<open>Renaming dimensions\<close>

lemma dim_pairs_rename:
  "dim_pairs (map (\<lambda>(name, var). (name, var\<lparr>vdims := map r (vdims var)\<rparr>)) vars) =
     map (\<lambda>(d, n). (r d, n)) (dim_pairs vars)"
  by (induction vars) (auto simp: dim_pairs_def zip_map1)

lemma scalar_vars_rename:
  "scalar_vars (map (\<lambda>(name, var). (name, var\<lparr>vdims := map r (vdims var)\<rparr>)) vars) = scalar_vars vars"
  by (induction vars) (auto simp: scalar_vars_def)

lemma scalar_vars_subset_names: "set (scalar_vars vars) \<subseteq> fst ` set vars"
  by (auto simp: scalar_vars_def)

lemma rename_keeps_rest:
  "map (\<lambda>(k, v). (k, vshape v, vflat v, vattrs v))
       (map (\<lambda>(name, var). (name, var\<lparr>vdims := map r (vdims var)\<rparr>)) vars) =
   map (\<lambda>(k, v). (k, vshape v, vflat v, vattrs v)) vars"
  by (induction vars) auto

lemma ren_simps:
  "rename_dim cell_dict ''south_north'' = ''y''"
  "rename_dim cell_dict ''west_east'' = ''x''"
  "rename_dim cell_dict ''Time'' = ''time''"
  "d \<notin> {''south_north'', ''west_east'', ''Time''} \<Longrightarrow> rename_dim cell_dict d = d"
  by (simp_all add: rename_dim_def cell_dict_def)

lemma ren_cases:
  "rename_dim cell_dict d \<in> {''y'', ''x'', ''time''} \<or>
   (rename_dim cell_dict d = d \<and> d \<notin> {''south_north'', ''west_east'', ''Time''})"
  by (simp add: rename_dim_def cell_dict_def)

lemma ren_inj:
  assumes "{''y'', ''x'', ''time''} \<inter> A = {}"
  shows "inj_on (rename_dim cell_dict) A"
proof (rule inj_onI)
  fix a b assume a: "a \<in> A" and b: "b \<in> A" and e: "rename_dim cell_dict a = rename_dim cell_dict b"
  from a b assms have "a \<notin> {''y'', ''x'', ''time''}" "b \<notin> {''y'', ''x'', ''time''}"
    by auto
  with e show "a = b"
    by (auto simp: rename_dim_def cell_dict_def split: if_splits)
qed

lemma renamed_lookup:
  assumes "set D' = (\<lambda>(d, n). (r d, n)) ` set D" "distinct (map fst D)" "distinct (map fst D')"
      and "inj_on r (insert d (fst ` set D))"
  shows "map_of D' (r d) = map_of D d"
proof (cases "map_of D d")
  case (Some n)
  then have "(d, n) \<in> set D" by (rule map_of_SomeD)
  then have "(r d, n) \<in> set D'" using assms(1) by force
  with assms(3) Some show ?thesis by simp
next
  case None
  then have nd: "d \<notin> fst ` set D" by (simp add: map_of_eq_None_iff)
  have "r d \<notin> fst ` set D'"
  proof
    assume "r d \<in> fst ` set D'"
    then obtain n where "(r d, n) \<in> set D'" by auto
    with assms(1) obtain d0 where d0: "(d0, n) \<in> set D" "r d0 = r d" by auto
    then have "d0 \<in> fst ` set D" by force
    have "d0 = d"
      by (rule inj_onD[OF assms(4) d0(2)]) (use \<open>d0 \<in> fst ` set D\<close> in auto)
    with nd \<open>d0 \<in> fst ` set D\<close> show False by simp
  qed
  then have "map_of D' (r d) = None"
    by (simp add: map_of_eq_None_iff)
  with None show ?thesis by simp
qed

lemma rename_dims_cell_unfold:
  assumes "calculate_dimensions (variables ds) = Inr dims"
  shows "rename_dims_cell ds =
     (if {''south_north'', ''west_east'', ''Time''} \<subseteq> fst ` set dims \<and>
         {''y'', ''x'', ''time''} \<inter> (fst ` set dims \<union> fst ` set (variables ds)) = {}
      then Inr (ds\<lparr>variables :=
                   map (\<lambda>(name, var). (name, var\<lparr>vdims := map (rename_dim cell_dict) (vdims var)\<rparr>))
                       (variables ds)\<rparr>)
      else Inl ValueError)"
  using assms by (auto simp: rename_dims_cell_def rename_dims_def cell_dict_def)

lemma rename_dims_cell_dims:
  assumes c: "calculate_dimensions (variables ds) = Inr dims"
      and new: "{''y'', ''x'', ''time''} \<inter> (fst ` set dims \<union> fst ` set (variables ds)) = {}"
  shows "\<exists>dims'. calculate_dimensions
            (map (\<lambda>(name, var). (name, var\<lparr>vdims := map (rename_dim cell_dict) (vdims var)\<rparr>)) (variables ds)) = Inr dims' \<and>
           set dims' = (\<lambda>(d, n). (rename_dim cell_dict d, n)) ` set dims \<and> distinct (map fst dims')"
proof -
  define r where "r = rename_dim cell_dict"
  define vars' where "vars' = map (\<lambda>(name, var). (name, var\<lparr>vdims := map r (vdims var)\<rparr>)) (variables ds)"
  note D = calculate_dimensions_Inr[OF c]
  have "set (dim_pairs vars') = (\<lambda>(d, n). (r d, n)) ` set (dim_pairs (variables ds))"
    unfolding vars'_def dim_pairs_rename by simp
  then have pairs: "set (dim_pairs vars') = (\<lambda>(d, n). (r d, n)) ` set dims"
    by (simp only: D(1))
  have sc: "scalar_vars vars' = scalar_vars (variables ds)"
    unfolding vars'_def by (rule scalar_vars_rename)
  have inj: "inj_on r (fst ` set dims)"
    unfolding r_def using new by (intro ren_inj) blast
  have sv: "single_valued (set (dim_pairs vars'))"
    unfolding pairs single_valued_def
  proof (intro allI impI)
    fix a b c assume ab: "(a, b) \<in> (\<lambda>(d, n). (r d, n)) ` set dims"
      and ac: "(a, c) \<in> (\<lambda>(d, n). (r d, n)) ` set dims"
    from ab obtain d1 where d1: "(d1, b) \<in> set dims" "r d1 = a"
      by (auto simp: image_iff split: prod.splits)
    from ac obtain d2 where d2: "(d2, c) \<in> set dims" "r d2 = a"
      by (auto simp: image_iff split: prod.splits)
    have m1: "d1 \<in> fst ` set dims" using d1(1) by (rule image_eqI[rotated]) simp
    have m2: "d2 \<in> fst ` set dims" using d2(1) by (rule image_eqI[rotated]) simp
    have "r d1 = r d2" using d1(2) d2(2) by simp
    from inj_onD[OF inj this m1 m2] have "d1 = d2" .
    with d2(1) have "(d1, c) \<in> set dims" by simp
    with d1(1) show "b = c" by (rule eq_key_imp_eq_value[OF D(2)])
  qed
  have disj: "fst ` set (dim_pairs vars') \<inter> set (scalar_vars vars') = {}"
  proof (rule ccontr)
    assume "fst ` set (dim_pairs vars') \<inter> set (scalar_vars vars') \<noteq> {}"
    then obtain a where a: "a \<in> fst ` set (dim_pairs vars')" "a \<in> set (scalar_vars (variables ds))"
      unfolding sc by blast
    from a(1) obtain n where "(a, n) \<in> set (dim_pairs vars')"
      by auto
    then obtain d where d: "(d, n) \<in> set dims" "a = r d"
      unfolding pairs by (auto simp: image_iff split: prod.splits)
    have av: "a \<in> fst ` set (variables ds)"
      by (rule subsetD[OF scalar_vars_subset_names a(2)])
    from ren_cases[of d] show False
    proof
      assume "rename_dim cell_dict d \<in> {''y'', ''x'', ''time''}"
      then have "a \<in> {''y'', ''x'', ''time''}"
        using d(2) by (simp only: r_def)
      then have "a \<in> {''y'', ''x'', ''time''} \<inter> (fst ` set dims \<union> fst ` set (variables ds))"
        using av by (intro IntI UnI2)
      then show False
        by (simp only: new empty_iff)
    next
      assume "rename_dim cell_dict d = d \<and> d \<notin> {''south_north'', ''west_east'', ''Time''}"
      then have "a = d" using d(2) by (simp add: r_def)
      then have "(a, n) \<in> set (dim_pairs (variables ds))" using d(1) D(1) by simp
      then have "a \<in> fst ` set (dim_pairs (variables ds))" by (rule image_eqI[rotated]) simp
      with a(2) D(3) show False by blast
    qed
  qed
  from calculate_dimensions_ok[OF disj sv] obtain dims' where
    d': "calculate_dimensions vars' = Inr dims'" by blast
  have "set dims' = (\<lambda>(d, n). (r d, n)) ` set dims"
    using calculate_dimensions_Inr(1)[OF d'] pairs by simp
  moreover note calculate_dimensions_Inr(2)[OF d']
  ultimately show ?thesis
    using d' unfolding vars'_def r_def by blast
qed

section \<open>The rename cell: the claim\<close>

lemma scenario_dims:
  "calculate_dimensions (variables scenario_ds) =
     Inr [(''Time'', 2), (''south_north'', 4), (''west_east'', 3)]"
  by (simp add: scenario_ds_def calculate_dimensions_def dim_pairs_def scalar_vars_def)

text \<open>
  Claim C9. Let the dataset have consistent dimension sizes. If \<^verbatim>\<open>south_north\<close>,
  \<^verbatim>\<open>west_east\<close> and \<^verbatim>\<open>Time\<close> are dimensions and none of \<^verbatim>\<open>y\<close>, \<^verbatim>\<open>x\<close>, \<^verbatim>\<open>time\<close> is
  a dimension or a variable already, the rename cell succeeds, and in its result the row
  dimension is called \<^verbatim>\<open>y\<close>, the column dimension \<^verbatim>\<open>x\<close> and the time dimension
  \<^verbatim>\<open>time\<close>, each with the size it had; the three old names are gone; every other
  dimension keeps its name and size, and no further name appears; the variables keep
  their names, shapes, values and attributes, and the coordinates and the dataset's
  attributes are unchanged. Otherwise the cell raises \<^verbatim>\<open>ValueError\<close>.
\<close>

theorem rename_dims_cell_axes:
  assumes "calculate_dimensions (variables ds) = Inr dims"
  shows "({''south_north'', ''west_east'', ''Time''} \<subseteq> fst ` set dims \<and>
          {''y'', ''x'', ''time''} \<inter> (fst ` set dims \<union> fst ` set (variables ds)) = {} \<longrightarrow>
          (\<exists>ds' dims'.
             rename_dims_cell ds = Inr ds' \<and> calculate_dimensions (variables ds') = Inr dims' \<and>
             map_of dims' ''y'' = map_of dims ''south_north'' \<and>
             map_of dims' ''x'' = map_of dims ''west_east'' \<and>
             map_of dims' ''time'' = map_of dims ''Time'' \<and>
             map_of dims' ''south_north'' = None \<and> map_of dims' ''west_east'' = None \<and>
             map_of dims' ''Time'' = None \<and>
             (\<forall>d. d \<notin> {''y'', ''x'', ''time'', ''south_north'', ''west_east'', ''Time''} \<longrightarrow>
                  map_of dims' d = map_of dims d) \<and>
             map (\<lambda>(k, v). (k, vshape v, vflat v, vattrs v)) (variables ds') =
               map (\<lambda>(k, v). (k, vshape v, vflat v, vattrs v)) (variables ds) \<and>
             coord_names ds' = coord_names ds \<and> attrs ds' = attrs ds)) \<and>
         (\<not> ({''south_north'', ''west_east'', ''Time''} \<subseteq> fst ` set dims \<and>
             {''y'', ''x'', ''time''} \<inter> (fst ` set dims \<union> fst ` set (variables ds)) = {}) \<longrightarrow>
          rename_dims_cell ds = Inl ValueError)"
proof (intro conjI impI)
  assume "\<not> ({''south_north'', ''west_east'', ''Time''} \<subseteq> fst ` set dims \<and>
             {''y'', ''x'', ''time''} \<inter> (fst ` set dims \<union> fst ` set (variables ds)) = {})"
  then show "rename_dims_cell ds = Inl ValueError"
    unfolding rename_dims_cell_unfold[OF assms] by (rule if_not_P)
next
  assume ok: "{''south_north'', ''west_east'', ''Time''} \<subseteq> fst ` set dims \<and>
          {''y'', ''x'', ''time''} \<inter> (fst ` set dims \<union> fst ` set (variables ds)) = {}"
  define r where "r = rename_dim cell_dict"
  define ds' where "ds' = ds\<lparr>variables :=
      map (\<lambda>(name, var). (name, var\<lparr>vdims := map (rename_dim cell_dict) (vdims var)\<rparr>)) (variables ds)\<rparr>"
  from ok have new: "{''y'', ''x'', ''time''} \<inter> (fst ` set dims \<union> fst ` set (variables ds)) = {}"
    by simp
  have run: "rename_dims_cell ds = Inr ds'"
    unfolding rename_dims_cell_unfold[OF assms] ds'_def using ok by (rule if_P)
  from rename_dims_cell_dims[OF assms new] obtain dims' where
    d': "calculate_dimensions (variables ds') = Inr dims'" and
    s': "set dims' = (\<lambda>(d, n). (r d, n)) ` set dims" and
    dist': "distinct (map fst dims')"
    unfolding ds'_def r_def by auto
  note dist = calculate_dimensions_Inr(2)[OF assms]
  have newd: "''y'' \<notin> fst ` set dims" "''x'' \<notin> fst ` set dims" "''time'' \<notin> fst ` set dims"
    using new by auto
  have inj: "inj_on r (insert d (fst ` set dims))" if "d \<notin> {''y'', ''x'', ''time''}" for d
    unfolding r_def using that newd by (intro ren_inj) simp
  have look: "map_of dims' (r d) = map_of dims d" if "d \<notin> {''y'', ''x'', ''time''}" for d
    using s' dist dist' inj[OF that] by (rule renamed_lookup)
  have y: "map_of dims' ''y'' = map_of dims ''south_north''"
    using look[of "''south_north''"] by (simp add: r_def ren_simps)
  have x: "map_of dims' ''x'' = map_of dims ''west_east''"
    using look[of "''west_east''"] by (simp add: r_def ren_simps)
  have t: "map_of dims' ''time'' = map_of dims ''Time''"
    using look[of "''Time''"] by (simp add: r_def ren_simps)
  have gone: "map_of dims' d = None" if "d \<in> {''south_north'', ''west_east'', ''Time''}" for d
  proof -
    have "d \<notin> fst ` set dims'"
    proof
      assume "d \<in> fst ` set dims'"
      then obtain n where "(d, n) \<in> set dims'" by auto
      then obtain d0 where "d = r d0"
        unfolding s' by (auto simp: image_iff split: prod.splits)
      with ren_cases[of d0] that show False
        by (auto simp: r_def)
    qed
    then show ?thesis by (simp add: map_of_eq_None_iff)
  qed
  have other: "\<forall>d. d \<notin> {''y'', ''x'', ''time'', ''south_north'', ''west_east'', ''Time''} \<longrightarrow>
                  map_of dims' d = map_of dims d"
  proof (intro allI impI)
    fix d assume d: "d \<notin> {''y'', ''x'', ''time'', ''south_north'', ''west_east'', ''Time''}"
    then have "r d = d" by (simp add: r_def ren_simps)
    moreover from d have "d \<notin> {''y'', ''x'', ''time''}" by simp
    ultimately show "map_of dims' d = map_of dims d" using look[of d] by simp
  qed
  have rest: "map (\<lambda>(k, v). (k, vshape v, vflat v, vattrs v)) (variables ds') =
               map (\<lambda>(k, v). (k, vshape v, vflat v, vattrs v)) (variables ds)"
    unfolding ds'_def using rename_keeps_rest[of "rename_dim cell_dict" "variables ds"]
    by (simp del: map_map)
  have same: "coord_names ds' = coord_names ds" "attrs ds' = attrs ds"
    by (simp_all add: ds'_def)
  show "\<exists>ds' dims'.
             rename_dims_cell ds = Inr ds' \<and> calculate_dimensions (variables ds') = Inr dims' \<and>
             map_of dims' ''y'' = map_of dims ''south_north'' \<and>
             map_of dims' ''x'' = map_of dims ''west_east'' \<and>
             map_of dims' ''time'' = map_of dims ''Time'' \<and>
             map_of dims' ''south_north'' = None \<and> map_of dims' ''west_east'' = None \<and>
             map_of dims' ''Time'' = None \<and>
             (\<forall>d. d \<notin> {''y'', ''x'', ''time'', ''south_north'', ''west_east'', ''Time''} \<longrightarrow>
                  map_of dims' d = map_of dims d) \<and>
             map (\<lambda>(k, v). (k, vshape v, vflat v, vattrs v)) (variables ds') =
               map (\<lambda>(k, v). (k, vshape v, vflat v, vattrs v)) (variables ds) \<and>
             coord_names ds' = coord_names ds \<and> attrs ds' = attrs ds"
    using run d' y x t gone[of "''south_north''"] gone[of "''west_east''"] gone[of "''Time''"]
      other rest same
    by (intro exI[of _ ds'] exI[of _ dims'] conjI) simp_all
qed

theorem rename_dims_cell_axes_witness:
  "calculate_dimensions (variables scenario_ds) =
     Inr [(''Time'', 2), (''south_north'', 4), (''west_east'', 3)] \<and>
   (\<exists>ds' dims'.
      rename_dims_cell scenario_ds = Inr ds' \<and> calculate_dimensions (variables ds') = Inr dims' \<and>
      map_of dims' ''y'' = Some 4 \<and> map_of dims' ''x'' = Some 3 \<and> map_of dims' ''time'' = Some 2 \<and>
      map_of dims' ''south_north'' = None)"
proof -
  have ok: "{''south_north'', ''west_east'', ''Time''} \<subseteq>
              fst ` set [(''Time'', 2 :: nat), (''south_north'', 4), (''west_east'', 3)] \<and>
            {''y'', ''x'', ''time''} \<inter>
              (fst ` set [(''Time'', 2 :: nat), (''south_north'', 4), (''west_east'', 3)] \<union>
               fst ` set (variables scenario_ds)) = {}"
    by (simp add: scenario_ds_def)
  from rename_dims_cell_axes[OF scenario_dims, THEN conjunct1, THEN mp, OF ok]
  obtain ds' dims' where
    "rename_dims_cell scenario_ds = Inr ds'" "calculate_dimensions (variables ds') = Inr dims'"
    "map_of dims' ''y'' = map_of [(''Time'', 2 :: nat), (''south_north'', 4), (''west_east'', 3)] ''south_north''"
    "map_of dims' ''x'' = map_of [(''Time'', 2 :: nat), (''south_north'', 4), (''west_east'', 3)] ''west_east''"
    "map_of dims' ''time'' = map_of [(''Time'', 2 :: nat), (''south_north'', 4), (''west_east'', 3)] ''Time''"
    "map_of dims' ''south_north'' = None"
    by blast
  then have "\<exists>ds' dims'.
      rename_dims_cell scenario_ds = Inr ds' \<and> calculate_dimensions (variables ds') = Inr dims' \<and>
      map_of dims' ''y'' = Some 4 \<and> map_of dims' ''x'' = Some 3 \<and> map_of dims' ''time'' = Some 2 \<and>
      map_of dims' ''south_north'' = None"
    by (intro exI[of _ ds'] exI[of _ dims']) simp
  with scenario_dims show ?thesis by (rule conjI)
qed

section \<open>Assigning coordinates\<close>

lemma assign_coords_ok:
  assumes "calculate_dimensions (variables ds) = Inr D" "vdims var \<noteq> []"
      and "set (zip (vdims var) (vshape var)) \<subseteq> set D"
  shows "\<exists>D'. assign_coords ds name var =
             Inr (ds\<lparr>variables := AList.update name var (variables ds),
                     coord_names := insert name (coord_names ds)\<rparr>) \<and>
           calculate_dimensions (AList.update name var (variables ds)) = Inr D' \<and>
           set (zip (vdims var) (vshape var)) \<subseteq> set D' \<and> set D' \<subseteq> set D"
proof -
  from calculate_dimensions_update_ok[OF assms, of name] obtain D' where
    D': "calculate_dimensions (AList.update name var (variables ds)) = Inr D'"
        "set (zip (vdims var) (vshape var)) \<subseteq> set D'" "set D' \<subseteq> set D"
    by blast
  then have "assign_coords ds name var =
             Inr (ds\<lparr>variables := AList.update name var (variables ds),
                     coord_names := insert name (coord_names ds)\<rparr>)"
    by (simp add: assign_coords_def Let_def)
  with D' show ?thesis by blast
qed

lemma assign_coords_error: "assign_coords ds name var = Inl e \<Longrightarrow> e = ValueError"
  by (cases "calculate_dimensions (AList.update name var (variables ds))")
     (auto simp: assign_coords_def Let_def dest: calculate_dimensions_error)

lemma assign_coords_conflict:
  assumes "(k', v') \<in> set (variables ds)" "k' \<noteq> name" "(d, n) \<in> set (zip (vdims v') (vshape v'))"
      and "(d, n') \<in> set (zip (vdims var) (vshape var))" "n \<noteq> n'"
  shows "assign_coords ds name var = Inl ValueError"
  using calculate_dimensions_update_conflict[OF assms]
  by (simp add: assign_coords_def Let_def)

lemma variable2_pairs:
  "zip (vdims (variable2 [a, b] arr)) (vshape (variable2 [a, b] arr)) =
     [(a, fst (shape2 arr)), (b, snd (shape2 arr))]"
  by (simp add: variable2_def)

lemma variable1_pairs: "zip (vdims (variable1 d xs)) (vshape (variable1 d xs)) = [(d, length xs)]"
  by (simp add: variable1_def)

lemma variable_dims_nonempty: "vdims (variable2 [a, b] arr) \<noteq> []" "vdims (variable1 d xs) \<noteq> []"
  by (simp_all add: variable2_def variable1_def)

lemma assign_coords_cell_ok:
  assumes c: "calculate_dimensions (variables ds) = Inr D"
      and y: "(''y'', length y) \<in> set D" and x: "(''x'', length x) \<in> set D"
      and lon: "shape2 lon = (length y, length x)" and lat: "shape2 lat = (length y, length x)"
  shows "assign_coords_cell ds lon lat x y = Inr (coords_assigned ds lon lat x y)"
    and "\<exists>D'. calculate_dimensions (variables (coords_assigned ds lon lat x y)) = Inr D'"
proof -
  let ?vlon = "variable2 [''y'', ''x''] lon" and ?vlat = "variable2 [''y'', ''x''] lat"
  let ?vx = "variable1 ''x'' x" and ?vy = "variable1 ''y'' y"
  have plon: "set (zip (vdims ?vlon) (vshape ?vlon)) \<subseteq> set D"
    using y x by (simp add: variable2_pairs lon)
  from assign_coords_ok[OF c variable_dims_nonempty(1) plon, of "''lon''"] obtain D1 where
    a1: "assign_coords ds ''lon'' ?vlon =
           Inr (ds\<lparr>variables := AList.update ''lon'' ?vlon (variables ds),
                   coord_names := insert ''lon'' (coord_names ds)\<rparr>)" and
    c1: "calculate_dimensions (AList.update ''lon'' ?vlon (variables ds)) = Inr D1" and
    s1: "set (zip (vdims ?vlon) (vshape ?vlon)) \<subseteq> set D1"
    by blast
  define ds1 where "ds1 = ds\<lparr>variables := AList.update ''lon'' ?vlon (variables ds),
                   coord_names := insert ''lon'' (coord_names ds)\<rparr>"
  have c1': "calculate_dimensions (variables ds1) = Inr D1"
    using c1 by (simp add: ds1_def)
  have in1: "(''y'', length y) \<in> set D1" "(''x'', length x) \<in> set D1"
    using s1 by (simp_all add: variable2_pairs lon)
  have plat: "set (zip (vdims ?vlat) (vshape ?vlat)) \<subseteq> set D1"
    using in1 by (simp add: variable2_pairs lat)
  from assign_coords_ok[OF c1' variable_dims_nonempty(1) plat, of "''lat''"] obtain D2 where
    a2: "assign_coords ds1 ''lat'' ?vlat =
           Inr (ds1\<lparr>variables := AList.update ''lat'' ?vlat (variables ds1),
                   coord_names := insert ''lat'' (coord_names ds1)\<rparr>)" and
    c2: "calculate_dimensions (AList.update ''lat'' ?vlat (variables ds1)) = Inr D2" and
    s2: "set (zip (vdims ?vlat) (vshape ?vlat)) \<subseteq> set D2"
    by blast
  define ds2 where "ds2 = ds1\<lparr>variables := AList.update ''lat'' ?vlat (variables ds1),
                   coord_names := insert ''lat'' (coord_names ds1)\<rparr>"
  have c2': "calculate_dimensions (variables ds2) = Inr D2"
    using c2 by (simp add: ds2_def)
  have in2: "(''y'', length y) \<in> set D2" "(''x'', length x) \<in> set D2"
    using s2 by (simp_all add: variable2_pairs lat)
  have px: "set (zip (vdims ?vx) (vshape ?vx)) \<subseteq> set D2"
    using in2 by (simp add: variable1_pairs)
  from assign_coords_ok[OF c2' variable_dims_nonempty(2) px, of "''x''"] obtain D3 where
    a3: "assign_coords ds2 ''x'' ?vx =
           Inr (ds2\<lparr>variables := AList.update ''x'' ?vx (variables ds2),
                   coord_names := insert ''x'' (coord_names ds2)\<rparr>)" and
    c3: "calculate_dimensions (AList.update ''x'' ?vx (variables ds2)) = Inr D3" and
    s3: "set D3 \<subseteq> set D2" "set (zip (vdims ?vx) (vshape ?vx)) \<subseteq> set D3"
    by blast
  define ds3 where "ds3 = ds2\<lparr>variables := AList.update ''x'' ?vx (variables ds2),
                   coord_names := insert ''x'' (coord_names ds2)\<rparr>"
  have c3': "calculate_dimensions (variables ds3) = Inr D3"
    using c3 by (simp add: ds3_def)
  have sub3: "set (dim_pairs (variables ds3)) \<subseteq> set (zip (vdims ?vx) (vshape ?vx)) \<union> set D2"
    using dim_pairs_update_subset[of "''x''" ?vx "variables ds2"] calculate_dimensions_Inr(1)[OF c2']
    by (simp add: ds3_def)
  have "(''y'', length y) \<in> set (dim_pairs (variables ds2))"
    using in2(1) calculate_dimensions_Inr(1)[OF c2'] by simp
  then obtain k v where kv: "(k, v) \<in> set (variables ds2)" "(''y'', length y) \<in> set (zip (vdims v) (vshape v))"
    by (auto simp: set_dim_pairs)
  have "(''y'', length y) \<in> set D3"
  proof (cases "k = ''x''")
    case False
    from dim_pairs_update_other[OF kv(1) False, of ?vx] kv(2)
    have "(''y'', length y) \<in> set (dim_pairs (variables ds3))"
      by (auto simp: ds3_def)
    then show ?thesis using calculate_dimensions_Inr(1)[OF c3'] by simp
  next
    case True
    have "(''lat'', ?vlat) \<in> set (variables ds2)"
      by (simp add: ds2_def set_update_self)
    from dim_pairs_update_other[OF this, of "''x''" ?vx]
    have "(''y'', length y) \<in> set (dim_pairs (variables ds3))"
      by (simp add: ds3_def variable2_pairs lat)
    then show ?thesis using calculate_dimensions_Inr(1)[OF c3'] by simp
  qed
  then have py: "set (zip (vdims ?vy) (vshape ?vy)) \<subseteq> set D3"
    by (simp add: variable1_pairs)
  from assign_coords_ok[OF c3' variable_dims_nonempty(2) py, of "''y''"] obtain D4 where
    a4: "assign_coords ds3 ''y'' ?vy =
           Inr (ds3\<lparr>variables := AList.update ''y'' ?vy (variables ds3),
                   coord_names := insert ''y'' (coord_names ds3)\<rparr>)" and
    c4: "calculate_dimensions (AList.update ''y'' ?vy (variables ds3)) = Inr D4"
    by blast
  have fin: "ds3\<lparr>variables := AList.update ''y'' ?vy (variables ds3),
                   coord_names := insert ''y'' (coord_names ds3)\<rparr> = coords_assigned ds lon lat x y"
    by (simp add: ds3_def ds2_def ds1_def coords_assigned_def)
  show "assign_coords_cell ds lon lat x y = Inr (coords_assigned ds lon lat x y)"
    unfolding assign_coords_cell_def
    using a1 a2 a3 a4 fin by (simp add: ds1_def[symmetric] ds2_def[symmetric] ds3_def[symmetric])
  from c4 fin show "\<exists>D'. calculate_dimensions (variables (coords_assigned ds lon lat x y)) = Inr D'"
    by (metis (no_types, lifting) dataset.select_convs(1) dataset.surjective dataset.update_convs(1,2))
qed

section \<open>Errors and success of the annotation\<close>

lemma assign_coords_cell_error: "assign_coords_cell ds lon lat x y = Inl e \<Longrightarrow> e = ValueError"
  unfolding assign_coords_cell_def and_then_def
  by (auto split: sum.splits dest: assign_coords_error)

lemma assign_coords_cell_mismatch:
  assumes "(ky, vy) \<in> set (variables ds)" "ky \<noteq> ''lon''" "(''y'', H) \<in> set (zip (vdims vy) (vshape vy))"
      and "(kx, vx) \<in> set (variables ds)" "kx \<noteq> ''lon''" "(''x'', W) \<in> set (zip (vdims vx) (vshape vx))"
      and lon: "shape2 lon = (length y, length x)"
      and ne: "length x \<noteq> W \<or> length y \<noteq> H"
  shows "assign_coords_cell ds lon lat x y = Inl ValueError"
proof -
  let ?vlon = "variable2 [''y'', ''x''] lon"
  have py: "(''y'', length y) \<in> set (zip (vdims ?vlon) (vshape ?vlon))"
    and px: "(''x'', length x) \<in> set (zip (vdims ?vlon) (vshape ?vlon))"
    by (simp_all add: variable2_pairs lon)
  from ne have "assign_coords ds ''lon'' ?vlon = Inl ValueError"
  proof
    assume "length x \<noteq> W"
    then have "W \<noteq> length x" by simp
    from assign_coords_conflict[OF assms(4,5,6) px this] show ?thesis .
  next
    assume "length y \<noteq> H"
    then have "H \<noteq> length y" by simp
    from assign_coords_conflict[OF assms(1,2,3) py this] show ?thesis .
  qed
  then show ?thesis
    by (simp add: assign_coords_cell_def)
qed

lemma set_attr_error: "set_attr name key val ds = Inl e \<Longrightarrow> e = AttributeError"
  by (auto simp: set_attr_def split: option.splits if_splits)

lemma set_attr_present:
  assumes "name \<in> fst ` set (variables ds)"
  shows "\<exists>var. map_of (variables ds) name = Some var \<and>
           set_attr name key val ds =
             Inr (ds\<lparr>variables :=
                    AList.update name (var\<lparr>vattrs := AList.update key val (vattrs var)\<rparr>) (variables ds)\<rparr>)"
proof -
  from assms obtain var where "map_of (variables ds) name = Some var"
    by (cases "map_of (variables ds) name") (auto simp: map_of_eq_None_iff)
  then show ?thesis by (simp add: set_attr_def)
qed

lemma set_attrs_error: "set_attrs as ds = Inl e \<Longrightarrow> e = AttributeError"
proof (induction as ds rule: set_attrs.induct)
  case (1 ds)
  then show ?case by simp
next
  case (2 name key val as ds)
  show ?case
  proof (cases "set_attr name key val ds")
    case (Inl e')
    with "2.prems" set_attr_error[OF Inl] show ?thesis by simp
  next
    case (Inr ds')
    with "2.prems" "2.IH"[of ds'] show ?thesis by simp
  qed
qed

lemma set_attrs_present:
  "fst ` set as \<subseteq> fst ` set (variables ds) \<Longrightarrow> \<exists>ds'. set_attrs as ds = Inr ds'"
proof (induction as ds rule: set_attrs.induct)
  case (1 ds)
  then show ?case by simp
next
  case (2 name key val as ds)
  from "2.prems" have "name \<in> fst ` set (variables ds)" by simp
  from set_attr_present[OF this, of key val] obtain var where
    s: "set_attr name key val ds =
          Inr (ds\<lparr>variables :=
                 AList.update name (var\<lparr>vattrs := AList.update key val (vattrs var)\<rparr>) (variables ds)\<rparr>)"
    by blast
  have "fst ` set as \<subseteq> fst ` set (variables (ds\<lparr>variables :=
                 AList.update name (var\<lparr>vattrs := AList.update key val (vattrs var)\<rparr>) (variables ds)\<rparr>))"
    using "2.prems" by (auto simp: AList.dom_update)
  from "2.IH"[OF this] s show ?case by simp
qed

lemma coordinate_attrs_names: "fst ` set coordinate_attrs = {''x'', ''y'', ''lon'', ''lat''}"
  by (simp add: coordinate_attrs_def insert_commute)

lemma coords_assigned_names:
  "{''x'', ''y'', ''lon'', ''lat''} \<subseteq> fst ` set (variables (coords_assigned ds lon lat x y))"
  by (simp add: coords_assigned_def AList.dom_update)

lemma attrs_cell_after_assign: "\<exists>ds'. attrs_cell (coords_assigned ds lon lat x y) = Inr ds'"
  unfolding attrs_cell_def
  using coords_assigned_names[of ds lon lat x y]
  by (intro set_attrs_present) (simp only: coordinate_attrs_names)

lemma annotate_ok:
  assumes "calculate_dimensions (variables ds) = Inr D"
      and "(''y'', length y) \<in> set D" and "(''x'', length x) \<in> set D"
      and "shape2 lon = (length y, length x)" and "shape2 lat = (length y, length x)"
  shows "\<exists>ds'. annotate lon lat x y ds = Inr ds' \<and> attrs_cell (coords_assigned ds lon lat x y) = Inr ds'"
  using assign_coords_cell_ok(1)[OF assms] attrs_cell_after_assign[of ds lon lat x y]
  by (auto simp: annotate_def)

lemma annotate_mismatch:
  assumes "(ky, vy) \<in> set (variables ds)" "ky \<noteq> ''lon''" "(''y'', H) \<in> set (zip (vdims vy) (vshape vy))"
      and "(kx, vx) \<in> set (variables ds)" "kx \<noteq> ''lon''" "(''x'', W) \<in> set (zip (vdims vx) (vshape vx))"
      and "shape2 lon = (length y, length x)"
      and "length x \<noteq> W \<or> length y \<noteq> H"
  shows "annotate lon lat x y ds = Inl ValueError"
  using assign_coords_cell_mismatch[OF assms] by (simp add: annotate_def)

lemma annotate_error: "annotate lon lat x y ds = Inl e \<Longrightarrow> e = ValueError \<or> e = AttributeError"
  unfolding annotate_def and_then_def attrs_cell_def
  by (auto split: sum.splits dest: assign_coords_cell_error set_attrs_error)

lemma py_int_error: "py_int s = Inl e \<Longrightarrow> e = ValueError"
  by (auto simp: py_int_def Let_def split: if_splits)

lemma py_index_error: "py_index xs i = Inl e \<Longrightarrow> e = IndexError"
  by (auto simp: py_index_def split: if_splits)

lemma and_then_InlD: "and_then r f = Inl e \<Longrightarrow> r = Inl e \<or> (\<exists>v. r = Inr v \<and> f v = Inl e)"
  by (cases r) auto

lemma coordinate_slicing_error:
  "coordinate_slicing ds_meta x_index y_index = Inl e \<Longrightarrow> e = IndexError \<or> e = ValueError"
  unfolding coordinate_slicing_def Let_def
  by (auto dest!: and_then_InlD dest: py_int_error py_index_error)

lemma offset_extraction_error: "fst (offset_extraction h) = Inl e \<Longrightarrow> e = AttributeError"
  by (auto simp: offset_extraction_fst split: option.splits)

lemma history_attr_error: "history_attr ds = Inl e \<Longrightarrow> e = KeyError \<or> e = TypeError"
  by (auto simp: history_attr_def split: option.splits attr_value.splits)

lemma rename_dims_cell_error: "rename_dims_cell ds = Inl e \<Longrightarrow> e = ValueError"
  unfolding rename_dims_cell_def rename_dims_def
  by (auto dest!: and_then_InlD dest: calculate_dimensions_error split: if_splits)

lemma notebook_error:
  "notebook T ds ds_meta = Inl e \<Longrightarrow>
     e = KeyError \<or> e = TypeError \<or> e = AttributeError \<or> e = IndexError \<or> e = ValueError"
  unfolding notebook_def
  by (auto dest!: and_then_InlD
           dest: history_attr_error offset_extraction_error coordinate_slicing_error
                 rename_dims_cell_error annotate_error
           split: prod.splits)

lemma rename_dims_cell_InrD:
  assumes "rename_dims_cell ds = Inr ds1"
  shows "\<exists>D1. calculate_dimensions (variables ds1) = Inr D1"
proof -
  from assms obtain dims where c: "calculate_dimensions (variables ds) = Inr dims"
    unfolding rename_dims_cell_def rename_dims_def
    by (cases "calculate_dimensions (variables ds)") auto
  from assms have ok: "{''south_north'', ''west_east'', ''Time''} \<subseteq> fst ` set dims \<and>
         {''y'', ''x'', ''time''} \<inter> (fst ` set dims \<union> fst ` set (variables ds)) = {}"
    and eq: "ds1 = ds\<lparr>variables :=
                   map (\<lambda>(name, var). (name, var\<lparr>vdims := map (rename_dim cell_dict) (vdims var)\<rparr>))
                       (variables ds)\<rparr>"
    unfolding rename_dims_cell_unfold[OF c] by (simp_all split: if_splits)
  from ok have new: "{''y'', ''x'', ''time''} \<inter> (fst ` set dims \<union> fst ` set (variables ds)) = {}"
    by simp
  from rename_dims_cell_dims[OF c new] show ?thesis
    unfolding eq by auto
qed

section \<open>The scenario, evaluated\<close>

lemma notebook_steps:
  assumes "history_attr ds = Inr h"
      and "fst (offset_extraction h) = Inr (y_index, x_index)"
      and "coordinate_slicing ds_meta x_index y_index = Inr (x, y)"
      and "rename_dims_cell ds = Inr ds1"
  shows "notebook T ds ds_meta =
           annotate (fst (reprojection T x y)) (snd (reprojection T x y)) x y ds1"
  using assms by (simp add: notebook_def split: prod.splits)

lemma scenario_rename: "rename_dims_cell scenario_ds = Inr scenario_renamed"
  using scenario_dims
  by (simp add: rename_dims_cell_def rename_dims_def cell_dict_def rename_dim_def
        scenario_ds_def scenario_renamed_def)

lemma scenario_wide_rename:
  "rename_dims_cell scenario_ds_wide =
     Inr (scenario_renamed\<lparr>attrs := [(''history'', AttrStr ''...west_east,10,13 ... south_north,20,23...'')]\<rparr>)"
proof -
  have "calculate_dimensions (variables scenario_ds_wide) =
     Inr [(''Time'', 2), (''south_north'', 4), (''west_east'', 3)]"
    using scenario_dims by (simp add: scenario_ds_wide_def)
  then show ?thesis
    by (simp add: rename_dims_cell_def rename_dims_def cell_dict_def rename_dim_def
        scenario_ds_wide_def scenario_ds_def scenario_renamed_def)
qed


lemma scenario_wide_extraction:
  "fst (offset_extraction ''...west_east,10,13 ... south_north,20,23...'') =
     Inr ([''20'', ''23''], [''10'', ''13''])"
  by code_simp

lemma scenario_ints:
  "py_int ''10'' = Inr 10" "py_int ''12'' = Inr 12" "py_int ''13'' = Inr 13"
  "py_int ''20'' = Inr 20" "py_int ''23'' = Inr 23"
  by (simp_all add: py_int_digits is_digit_def digits_value_def)

lemma scenario_wide_slices:
  "py_slice (ref_x scenario_meta) 10 (13 + 1) = [10, 11, 12, 13]"
  "py_slice (ref_y scenario_meta) (int (length (ref_y scenario_meta)) - 23 - 1)
     (int (length (ref_y scenario_meta)) - 20) = [106, 107, 108, 109]"
  by (simp_all add: py_slice_def slice_bound_def scenario_meta_def upt_rec)

section \<open>Mismatching sizes: the claim\<close>

lemma scenario_wide_history:
  "history_attr scenario_ds_wide = Inr ''...west_east,10,13 ... south_north,20,23...''"
  by (simp add: history_attr_def scenario_ds_wide_def)

lemma scenario_wide_slicing:
  "coordinate_slicing scenario_meta [''10'', ''13''] [''20'', ''23''] =
     Inr ([10, 11, 12, 13], [106, 107, 108, 109])"
  using coordinate_slicing_parsed[OF scenario_ints(1,3,4,5), of scenario_meta]
  by (simp only: scenario_wide_slices)

lemma scenario_renamed_carrier:
  "(''LWDOWN'', \<lparr>vdims = [''time'', ''y'', ''x''], vshape = [2, 4, 3],
       vflat = replicate 24 (0 :: int), vattrs = []\<rparr>) \<in> set (variables scenario_renamed)"
  "''LWDOWN'' \<noteq> ''lon''"
  "(''y'', 4) \<in> set (zip (vdims \<lparr>vdims = [''time'', ''y'', ''x''], vshape = [2, 4, 3],
       vflat = replicate 24 (0 :: int), vattrs = []\<rparr>)
     (vshape \<lparr>vdims = [''time'', ''y'', ''x''], vshape = [2, 4, 3],
       vflat = replicate 24 (0 :: int), vattrs = []\<rparr>))"
  "(''x'', 3) \<in> set (zip (vdims \<lparr>vdims = [''time'', ''y'', ''x''], vshape = [2, 4, 3],
       vflat = replicate 24 (0 :: int), vattrs = []\<rparr>)
     (vshape \<lparr>vdims = [''time'', ''y'', ''x''], vshape = [2, 4, 3],
       vflat = replicate 24 (0 :: int), vattrs = []\<rparr>))"
  by (simp_all add: scenario_renamed_def)

text \<open>
  Claim C3, as stated, does not hold. In the run below the history records four columns
  for a target with three: the slicing cell succeeds and returns four column coordinates,
  and the run then ends with \<^verbatim>\<open>ValueError\<close>, not with a \<open>DimensionMismatchError\<close>.
\<close>

theorem slicing_mismatch_counterexample:
  "coordinate_slicing scenario_meta [''10'', ''13''] [''20'', ''23''] =
     Inr ([10, 11, 12, 13], [106, 107, 108, 109]) \<and>
   length [10, 11, 12, 13 :: int] \<noteq> 3 \<and>
   map_of [(''Time'', 2 :: nat), (''south_north'', 4), (''west_east'', 3)] ''west_east'' = Some 3 \<and>
   calculate_dimensions (variables scenario_ds_wide) =
     Inr [(''Time'', 2), (''south_north'', 4), (''west_east'', 3)] \<and>
   notebook Pair scenario_ds_wide scenario_meta = Inl ValueError \<and>
   notebook Pair scenario_ds_wide scenario_meta \<noteq> Inl DimensionMismatchError"
proof -
  have d: "calculate_dimensions (variables scenario_ds_wide) =
     Inr [(''Time'', 2), (''south_north'', 4), (''west_east'', 3)]"
    using scenario_dims by (simp add: scenario_ds_wide_def)
  have "notebook Pair scenario_ds_wide scenario_meta =
          annotate (fst (reprojection Pair [10, 11, 12, 13] [106, 107, 108, 109]))
                   (snd (reprojection Pair [10, 11, 12, 13] [106, 107, 108, 109]))
                   [10, 11, 12, 13] [106, 107, 108, 109]
                   (scenario_renamed\<lparr>attrs := [(''history'', AttrStr ''...west_east,10,13 ... south_north,20,23...'')]\<rparr>)"
    by (rule notebook_steps[OF scenario_wide_history scenario_wide_extraction scenario_wide_slicing
          scenario_wide_rename])
  also have "\<dots> = Inl ValueError"
  proof -
    have c: "(''LWDOWN'', \<lparr>vdims = [''time'', ''y'', ''x''], vshape = [2, 4, 3],
       vflat = replicate 24 (0 :: int), vattrs = []\<rparr>) \<in>
        set (variables (scenario_renamed\<lparr>attrs := [(''history'', AttrStr ''...west_east,10,13 ... south_north,20,23...'')]\<rparr>))"
      using scenario_renamed_carrier(1) by simp
    have m: "length [10, 11, 12, 13 :: int] \<noteq> 3 \<or> length [106, 107, 108, 109 :: int] \<noteq> 4"
      by simp
    show ?thesis
      by (rule annotate_mismatch[OF c scenario_renamed_carrier(2,3) c scenario_renamed_carrier(2,4)
            reprojection_shape(1) m])
  qed
  finally have n: "notebook Pair scenario_ds_wide scenario_meta = Inl ValueError" .
  with scenario_wide_slicing d show ?thesis by simp
qed

text \<open>
  Claim C3, amended. The slicing cell compares nothing with the target: for offsets that
  parse it returns the two slices, whatever their lengths, and no step of the run raises
  \<open>DimensionMismatchError\<close>. A mismatch ends the run all the same, one step later: when
  the renamed target has a variable other than \<^verbatim>\<open>lon\<close> with dimension \<^verbatim>\<open>y\<close> of size
  \<open>H\<close> and one with dimension \<^verbatim>\<open>x\<close> of size \<open>W\<close>, the run completes if \<open>len(x_sub) = W\<close>
  and \<open>len(y_sub) = H\<close>, and ends with the \<^verbatim>\<open>ValueError\<close> of \<^verbatim>\<open>assign_coords\<close>
  otherwise.
\<close>

theorem mismatch_fails_in_assign_coords:
  assumes h: "history_attr ds = Inr h"
      and e: "fst (offset_extraction h) = Inr ([sy0, sy1], [sx0, sx1])"
      and p: "py_int sx0 = Inr x0" "py_int sx1 = Inr x1" "py_int sy0 = Inr y0" "py_int sy1 = Inr y1"
      and xs: "x_sub = py_slice (ref_x ds_meta) x0 (x1 + 1)"
      and ys: "y_sub = py_slice (ref_y ds_meta) (int (length (ref_y ds_meta)) - y1 - 1)
                                (int (length (ref_y ds_meta)) - y0)"
      and r: "rename_dims_cell ds = Inr ds1"
      and cy: "(ky, vy) \<in> set (variables ds1)" "ky \<noteq> ''lon''"
              "(''y'', H) \<in> set (zip (vdims vy) (vshape vy))"
      and cx: "(kx, vx) \<in> set (variables ds1)" "kx \<noteq> ''lon''"
              "(''x'', W) \<in> set (zip (vdims vx) (vshape vx))"
  shows "coordinate_slicing ds_meta [sx0, sx1] [sy0, sy1] = Inr (x_sub, y_sub) \<and>
         (length x_sub = W \<and> length y_sub = H \<longrightarrow> (\<exists>ds'. notebook T ds ds_meta = Inr ds')) \<and>
         (length x_sub \<noteq> W \<or> length y_sub \<noteq> H \<longrightarrow> notebook T ds ds_meta = Inl ValueError) \<and>
         notebook T ds ds_meta \<noteq> Inl DimensionMismatchError"
proof -
  have s: "coordinate_slicing ds_meta [sx0, sx1] [sy0, sy1] = Inr (x_sub, y_sub)"
    unfolding xs ys by (rule coordinate_slicing_parsed[OF p])
  note n = notebook_steps[OF h e s r, of T]
  note sh = reprojection_shape[of T x_sub y_sub]
  have ok: "\<exists>ds'. notebook T ds ds_meta = Inr ds'" if m: "length x_sub = W \<and> length y_sub = H"
  proof -
    from rename_dims_cell_InrD[OF r] obtain D1 where
      D1: "calculate_dimensions (variables ds1) = Inr D1" by blast
    have "(''y'', H) \<in> set (dim_pairs (variables ds1))" "(''x'', W) \<in> set (dim_pairs (variables ds1))"
      using cy(1,3) cx(1,3) by (auto simp: set_dim_pairs)
    then have "(''y'', length y_sub) \<in> set D1" "(''x'', length x_sub) \<in> set D1"
      using calculate_dimensions_Inr(1)[OF D1] m by simp_all
    from annotate_ok[OF D1 this sh] show ?thesis
      unfolding n by blast
  qed
  have bad: "notebook T ds ds_meta = Inl ValueError" if m: "length x_sub \<noteq> W \<or> length y_sub \<noteq> H"
    unfolding n by (rule annotate_mismatch[OF cy cx sh(1) m])
  have "notebook T ds ds_meta \<noteq> Inl DimensionMismatchError"
    using notebook_error[of T ds ds_meta DimensionMismatchError] by auto
  with s ok bad show ?thesis by blast
qed

theorem mismatch_fails_in_assign_coords_witness:
  "history_attr scenario_ds_wide = Inr ''...west_east,10,13 ... south_north,20,23...'' \<and>
   fst (offset_extraction ''...west_east,10,13 ... south_north,20,23...'') =
     Inr ([''20'', ''23''], [''10'', ''13'']) \<and>
   py_int ''10'' = Inr 10 \<and> py_int ''13'' = Inr 13 \<and> py_int ''20'' = Inr 20 \<and> py_int ''23'' = Inr 23 \<and>
   rename_dims_cell scenario_ds_wide =
     Inr (scenario_renamed\<lparr>attrs := [(''history'', AttrStr ''...west_east,10,13 ... south_north,20,23...'')]\<rparr>) \<and>
   coordinate_slicing scenario_meta [''10'', ''13''] [''20'', ''23''] =
     Inr ([10, 11, 12, 13], [106, 107, 108, 109]) \<and>
   length [10, 11, 12, 13 :: int] \<noteq> 3 \<and>
   notebook Pair scenario_ds_wide scenario_meta = Inl ValueError"
proof -
  have c: "(''LWDOWN'', \<lparr>vdims = [''time'', ''y'', ''x''], vshape = [2, 4, 3],
       vflat = replicate 24 (0 :: int), vattrs = []\<rparr>) \<in>
        set (variables (scenario_renamed\<lparr>attrs := [(''history'', AttrStr ''...west_east,10,13 ... south_north,20,23...'')]\<rparr>))"
    using scenario_renamed_carrier(1) by simp
  note t = mismatch_fails_in_assign_coords[OF scenario_wide_history scenario_wide_extraction
      scenario_ints(1,3,4,5) scenario_wide_slices(1)[symmetric] scenario_wide_slices(2)[symmetric]
      scenario_wide_rename c scenario_renamed_carrier(2,3) c scenario_renamed_carrier(2,4), of Pair]
  have m: "length [10, 11, 12, 13 :: int] \<noteq> 3 \<or> length [106, 107, 108, 109 :: int] \<noteq> 4"
    by simp
  have n: "notebook Pair scenario_ds_wide scenario_meta = Inl ValueError"
    by (rule t[THEN conjunct2, THEN conjunct2, THEN conjunct1, THEN mp, OF m])
  have l: "length [10, 11, 12, 13 :: int] \<noteq> 3"
    by simp
  show ?thesis
    by (intro conjI scenario_wide_history scenario_wide_extraction scenario_ints(1,3,4,5)
          scenario_wide_rename scenario_wide_slicing l n)
qed

section \<open>Updates of an ordered dictionary\<close>

lemma update_commute_present:
  "k \<noteq> k' \<Longrightarrow> k \<in> fst ` set al \<Longrightarrow>
     AList.update k v (AList.update k' v' al) = AList.update k' v' (AList.update k v al)"
  by (induction al) auto

lemma fold_update_absorb1:
  "k' \<in> fst ` set fs \<Longrightarrow> fst ` set fs \<subseteq> fst ` set al \<Longrightarrow>
     fold (\<lambda>(k, v). AList.update k v) fs (AList.update k' v' al) =
     fold (\<lambda>(k, v). AList.update k v) fs al"
proof (induction fs arbitrary: al)
  case Nil
  then show ?case by simp
next
  case (Cons f fs)
  obtain k v where f: "f = (k, v)" by (cases f)
  show ?case
  proof (cases "k' = k")
    case True
    then show ?thesis by (simp add: f)
  next
    case False
    with Cons.prems f have in_rest: "k' \<in> fst ` set fs" and k_al: "k \<in> fst ` set al"
      by auto
    have sub: "fst ` set fs \<subseteq> fst ` set (AList.update k v al)"
      using Cons.prems(2) by (auto simp: AList.dom_update)
    have "AList.update k v (AList.update k' v' al) = AList.update k' v' (AList.update k v al)"
      using False k_al by (intro update_commute_present) auto
    then show ?thesis
      using Cons.IH[OF in_rest sub] by (simp add: f)
  qed
qed

lemma fold_update_absorb:
  "fst ` set us \<subseteq> fst ` set fs \<Longrightarrow> fst ` set fs \<subseteq> fst ` set al \<Longrightarrow>
     fold (\<lambda>(k, v). AList.update k v) fs (fold (\<lambda>(k, v). AList.update k v) us al) =
     fold (\<lambda>(k, v). AList.update k v) fs al"
proof (induction us arbitrary: al)
  case Nil
  then show ?case by simp
next
  case (Cons u us)
  obtain k' v' where u: "u = (k', v')" by (cases u)
  from Cons.prems u have k': "k' \<in> fst ` set fs" and rest: "fst ` set us \<subseteq> fst ` set fs"
    by auto
  have sub: "fst ` set fs \<subseteq> fst ` set (AList.update k' v' al)"
    using Cons.prems(2) by (auto simp: AList.dom_update)
  have "fold (\<lambda>(k, v). AList.update k v) fs (fold (\<lambda>(k, v). AList.update k v) (u # us) al) =
        fold (\<lambda>(k, v). AList.update k v) fs (AList.update k' v' al)"
    using Cons.IH[OF rest sub] by (simp add: u)
  also have "\<dots> = fold (\<lambda>(k, v). AList.update k v) fs al"
    by (rule fold_update_absorb1[OF k' Cons.prems(2)])
  finally show ?case .
qed

lemma dim_pairs_skeleton:
  "dim_pairs vars = concat (map (\<lambda>(k, d, s). zip d s) (skeleton vars))"
  by (induction vars) (auto simp: dim_pairs_def skeleton_def)

lemma scalar_vars_skeleton:
  "scalar_vars vars = map fst (filter (\<lambda>(k, d, s). d = []) (skeleton vars))"
  by (induction vars) (auto simp: scalar_vars_def skeleton_def)

lemma calculate_dimensions_skeleton:
  "skeleton a = skeleton b \<Longrightarrow> calculate_dimensions a = calculate_dimensions b"
  by (simp add: calculate_dimensions_def dim_pairs_skeleton scalar_vars_skeleton)

lemma skeleton_update:
  "skeleton (AList.update k var al) = AList.update k (vdims var, vshape var) (skeleton al)"
  by (induction al) (auto simp: skeleton_def)

lemma map_of_skeleton:
  "map_of (skeleton al) k = map_option (\<lambda>var. (vdims var, vshape var)) (map_of al k)"
  by (induction al) (auto simp: skeleton_def)

lemma skeleton_update_same:
  assumes "map_of (skeleton al) k = Some (vdims var, vshape var)"
  shows "skeleton (AList.update k var al) = skeleton al"
  unfolding skeleton_update using assms by (rule AList.update_triv)

lemma set_attr_Inr:
  assumes "set_attr name key val ds = Inr ds'"
  shows "coord_names ds' = coord_names ds" and "attrs ds' = attrs ds"
    and "skeleton (variables ds') = skeleton (variables ds)"
    and "\<exists>us. variables ds' = fold (\<lambda>(k, v). AList.update k v) us (variables ds) \<and>
              fst ` set us \<subseteq> {name}"
proof -
  show "coord_names ds' = coord_names ds" and "attrs ds' = attrs ds"
    using assms by (auto simp: set_attr_def split: option.splits if_splits)
  show "skeleton (variables ds') = skeleton (variables ds)"
  proof (cases "map_of (variables ds) name")
    case None
    with assms show ?thesis by (auto simp: set_attr_def split: if_splits)
  next
    case (Some var)
    then have "map_of (skeleton (variables ds)) name =
        Some (vdims (var\<lparr>vattrs := AList.update key val (vattrs var)\<rparr>),
              vshape (var\<lparr>vattrs := AList.update key val (vattrs var)\<rparr>))"
      by (simp add: map_of_skeleton)
    from skeleton_update_same[OF this] Some assms show ?thesis
      by (auto simp: set_attr_def)
  qed
  show "\<exists>us. variables ds' = fold (\<lambda>(k, v). AList.update k v) us (variables ds) \<and>
              fst ` set us \<subseteq> {name}"
  proof (cases "map_of (variables ds) name")
    case None
    with assms have "variables ds' = fold (\<lambda>(k, v). AList.update k v) [] (variables ds)"
      by (auto simp: set_attr_def split: if_splits)
    then show ?thesis by (intro exI[of _ "[]"]) simp
  next
    case (Some var)
    with assms have "variables ds' =
        fold (\<lambda>(k, v). AList.update k v)
          [(name, var\<lparr>vattrs := AList.update key val (vattrs var)\<rparr>)] (variables ds)"
      by (auto simp: set_attr_def)
    then show ?thesis
      by (intro exI[of _ "[(name, var\<lparr>vattrs := AList.update key val (vattrs var)\<rparr>)]"]) simp
  qed
qed

lemma set_attrs_Inr:
  "set_attrs as ds = Inr ds' \<Longrightarrow>
     coord_names ds' = coord_names ds \<and> attrs ds' = attrs ds \<and>
     skeleton (variables ds') = skeleton (variables ds) \<and>
     (\<exists>us. variables ds' = fold (\<lambda>(k, v). AList.update k v) us (variables ds) \<and>
           fst ` set us \<subseteq> fst ` set as)"
proof (induction as ds rule: set_attrs.induct)
  case (1 ds)
  then have "variables ds' = fold (\<lambda>(k, v). AList.update k v) [] (variables ds)"
    by simp
  with 1 show ?case by (simp del: fold_simps)
next
  case (2 name key val as ds)
  from "2.prems" obtain mid where mid: "set_attr name key val ds = Inr mid" and
    rest: "set_attrs as mid = Inr ds'"
    by (cases "set_attr name key val ds") auto
  note a = set_attr_Inr[OF mid]
  note b = "2.IH"[OF rest]
  from a(4) obtain us1 where us1: "variables mid = fold (\<lambda>(k, v). AList.update k v) us1 (variables ds)"
      "fst ` set us1 \<subseteq> {name}" by blast
  from b obtain us2 where us2: "variables ds' = fold (\<lambda>(k, v). AList.update k v) us2 (variables mid)"
      "fst ` set us2 \<subseteq> fst ` set as" by blast
  have "variables ds' = fold (\<lambda>(k, v). AList.update k v) (us1 @ us2) (variables ds)"
    using us1(1) us2(1) by simp
  moreover have "fst ` set (us1 @ us2) \<subseteq> fst ` set ((name, key, val) # as)"
    using us1(2) us2(2) by auto
  ultimately have "\<exists>us. variables ds' = fold (\<lambda>(k, v). AList.update k v) us (variables ds) \<and>
           fst ` set us \<subseteq> fst ` set ((name, key, val) # as)"
    by blast
  with a(1,2,3) b show ?case by simp
qed

section \<open>Assigning the same coordinates again\<close>

lemma assign_coords_InrD:
  assumes "assign_coords ds name var = Inr ds'"
  shows "ds' = ds\<lparr>variables := AList.update name var (variables ds),
                   coord_names := insert name (coord_names ds)\<rparr>"
    and "\<exists>D. calculate_dimensions (AList.update name var (variables ds)) = Inr D"
  using assms
  by (cases "calculate_dimensions (AList.update name var (variables ds))";
      simp add: assign_coords_def Let_def)+

lemma assign_coords_cell_InrD:
  assumes "assign_coords_cell ds lon lat x y = Inr A"
  shows "A = coords_assigned ds lon lat x y"
    and "\<exists>D. calculate_dimensions (variables A) = Inr D"
proof -
  from assms obtain d1 where a1: "assign_coords ds ''lon'' (variable2 [''y'', ''x''] lon) = Inr d1"
    unfolding assign_coords_cell_def
    by (cases "assign_coords ds ''lon'' (variable2 [''y'', ''x''] lon)") auto
  with assms obtain d2 where a2: "assign_coords d1 ''lat'' (variable2 [''y'', ''x''] lat) = Inr d2"
    unfolding assign_coords_cell_def
    by (cases "assign_coords d1 ''lat'' (variable2 [''y'', ''x''] lat)") auto
  with assms a1 obtain d3 where a3: "assign_coords d2 ''x'' (variable1 ''x'' x) = Inr d3"
    unfolding assign_coords_cell_def
    by (cases "assign_coords d2 ''x'' (variable1 ''x'' x)") auto
  with assms a1 a2 have a4: "assign_coords d3 ''y'' (variable1 ''y'' y) = Inr A"
    unfolding assign_coords_cell_def by simp
  note e1 = assign_coords_InrD(1)[OF a1] and e2 = assign_coords_InrD(1)[OF a2]
   and e3 = assign_coords_InrD(1)[OF a3] and e4 = assign_coords_InrD(1)[OF a4]
  show "A = coords_assigned ds lon lat x y"
    unfolding e4 e3 e2 e1 coords_assigned_def by simp
  from assign_coords_InrD(2)[OF a4] show "\<exists>D. calculate_dimensions (variables A) = Inr D"
    unfolding e4 by simp
qed

lemma assign_coords_same_skeleton:
  assumes "calculate_dimensions V = Inr D"
      and "skeleton (AList.update name var (variables ds)) = skeleton V"
  shows "assign_coords ds name var =
           Inr (ds\<lparr>variables := AList.update name var (variables ds),
                   coord_names := insert name (coord_names ds)\<rparr>)"
  using calculate_dimensions_skeleton[OF assms(2)] assms(1)
  by (simp add: assign_coords_def Let_def)

lemma skeleton_update_known:
  assumes "skeleton al = skeleton V" "map_of V k = Some var"
  shows "skeleton (AList.update k var al) = skeleton V"
proof -
  have "map_of (skeleton al) k = Some (vdims var, vshape var)"
    unfolding assms(1) using assms(2) by (simp add: map_of_skeleton)
  from skeleton_update_same[OF this] assms(1) show ?thesis by simp
qed

lemma coords_assigned_lookup:
  "map_of (variables (coords_assigned ds lon lat x y)) ''lon'' = Some (variable2 [''y'', ''x''] lon)"
  "map_of (variables (coords_assigned ds lon lat x y)) ''lat'' = Some (variable2 [''y'', ''x''] lat)"
  "map_of (variables (coords_assigned ds lon lat x y)) ''x'' = Some (variable1 ''x'' x)"
  "map_of (variables (coords_assigned ds lon lat x y)) ''y'' = Some (variable1 ''y'' y)"
  by (simp_all add: coords_assigned_def AList.update_conv')

lemma reassign_coords:
  assumes A: "A = coords_assigned ds lon lat x y"
      and cA: "calculate_dimensions (variables A) = Inr D"
      and cn: "coord_names ds1 = coord_names A" and at: "attrs ds1 = attrs A"
      and sk: "skeleton (variables ds1) = skeleton (variables A)"
      and us: "variables ds1 = fold (\<lambda>(k, v). AList.update k v) us (variables A)"
              "fst ` set us \<subseteq> {''x'', ''y'', ''lon'', ''lat''}"
  shows "assign_coords_cell ds1 lon lat x y = Inr A"
proof -
  let ?vlon = "variable2 [''y'', ''x''] lon" and ?vlat = "variable2 [''y'', ''x''] lat"
  let ?vx = "variable1 ''x'' x" and ?vy = "variable1 ''y'' y"
  let ?V = "variables A"
  note m = coords_assigned_lookup[of ds lon lat x y, folded A]
  define W1 where "W1 = AList.update ''lon'' ?vlon (variables ds1)"
  define W2 where "W2 = AList.update ''lat'' ?vlat W1"
  define W3 where "W3 = AList.update ''x'' ?vx W2"
  define W4 where "W4 = AList.update ''y'' ?vy W3"
  have s1: "skeleton W1 = skeleton ?V"
    unfolding W1_def by (rule skeleton_update_known[OF sk m(1)])
  have s2: "skeleton W2 = skeleton ?V"
    unfolding W2_def by (rule skeleton_update_known[OF s1 m(2)])
  have s3: "skeleton W3 = skeleton ?V"
    unfolding W3_def by (rule skeleton_update_known[OF s2 m(3)])
  have s4: "skeleton W4 = skeleton ?V"
    unfolding W4_def by (rule skeleton_update_known[OF s3 m(4)])
  define d1 where "d1 = ds1\<lparr>variables := W1, coord_names := insert ''lon'' (coord_names ds1)\<rparr>"
  define d2 where "d2 = d1\<lparr>variables := W2, coord_names := insert ''lat'' (coord_names d1)\<rparr>"
  define d3 where "d3 = d2\<lparr>variables := W3, coord_names := insert ''x'' (coord_names d2)\<rparr>"
  define d4 where "d4 = d3\<lparr>variables := W4, coord_names := insert ''y'' (coord_names d3)\<rparr>"
  have a1: "assign_coords ds1 ''lon'' ?vlon = Inr d1"
    unfolding d1_def W1_def
    by (rule assign_coords_same_skeleton[OF cA]) (rule s1[unfolded W1_def])
  have a2: "assign_coords d1 ''lat'' ?vlat = Inr d2"
  proof -
    have v: "variables d1 = W1" by (simp add: d1_def)
    show ?thesis
      unfolding d2_def W2_def v[symmetric]
      by (rule assign_coords_same_skeleton[OF cA]) (rule s2[unfolded W2_def v[symmetric]])
  qed
  have a3: "assign_coords d2 ''x'' ?vx = Inr d3"
  proof -
    have v: "variables d2 = W2" by (simp add: d2_def)
    show ?thesis
      unfolding d3_def W3_def v[symmetric]
      by (rule assign_coords_same_skeleton[OF cA]) (rule s3[unfolded W3_def v[symmetric]])
  qed
  have a4: "assign_coords d3 ''y'' ?vy = Inr d4"
  proof -
    have v: "variables d3 = W3" by (simp add: d3_def)
    show ?thesis
      unfolding d4_def W4_def v[symmetric]
      by (rule assign_coords_same_skeleton[OF cA]) (rule s4[unfolded W4_def v[symmetric]])
  qed
  have run: "assign_coords_cell ds1 lon lat x y = Inr d4"
    by (simp add: assign_coords_cell_def a1 a2 a3 a4)
  let ?fs = "[(''lon'', ?vlon), (''lat'', ?vlat), (''x'', ?vx), (''y'', ?vy)]"
  have keys: "fst ` set ?fs \<subseteq> fst ` set ?V"
    unfolding A coords_assigned_def by (simp add: AList.dom_update)
  have us': "fst ` set us \<subseteq> fst ` set ?fs"
    using us(2) by auto
  have "W4 = fold (\<lambda>(k, v). AList.update k v) ?fs (variables ds1)"
    by (simp add: W4_def W3_def W2_def W1_def)
  also have "\<dots> = fold (\<lambda>(k, v). AList.update k v) ?fs ?V"
    unfolding us(1) by (rule fold_update_absorb[OF us' keys])
  also have "\<dots> = ?V"
    by (simp add: AList.update_triv[OF m(1)] AList.update_triv[OF m(2)]
          AList.update_triv[OF m(3)] AList.update_triv[OF m(4)])
  finally have W4: "W4 = ?V" .
  have "coord_names d4 = insert ''y'' (insert ''x'' (insert ''lat'' (insert ''lon'' (coord_names A))))"
    by (simp add: d4_def d3_def d2_def d1_def cn)
  also have "\<dots> = coord_names A"
    unfolding A coords_assigned_def by auto
  finally have c4: "coord_names d4 = coord_names A" .
  have "attrs d4 = attrs A"
    by (simp add: d4_def d3_def d2_def d1_def at)
  moreover have "variables d4 = variables A"
    by (simp add: d4_def W4)
  ultimately have "d4 = A"
    using c4 by (simp add: dataset.equality)
  with run show ?thesis by simp
qed

section \<open>Idempotence of the annotation: the claim\<close>

lemma set_attr_keeps:
  assumes f: "\<And>var a. f (var\<lparr>vattrs := a\<rparr>) = f var"
      and s: "set_attr name key val ds = Inr ds'"
  shows "map_option f (map_of (variables ds') n) = map_option f (map_of (variables ds) n)"
proof (cases "map_of (variables ds) name")
  case None
  with s show ?thesis by (auto simp: set_attr_def split: if_splits)
next
  case (Some var)
  with s have "variables ds' =
      AList.update name (var\<lparr>vattrs := AList.update key val (vattrs var)\<rparr>) (variables ds)"
    by (auto simp: set_attr_def)
  then show ?thesis
    using Some f by (simp add: AList.update_conv')
qed

lemma set_attrs_keeps:
  assumes f: "\<And>var a. f (var\<lparr>vattrs := a\<rparr>) = f var"
  shows "set_attrs as ds = Inr ds' \<Longrightarrow>
           map_option f (map_of (variables ds') n) = map_option f (map_of (variables ds) n)"
proof (induction as ds rule: set_attrs.induct)
  case (1 ds)
  then show ?case by simp
next
  case (2 name key val as ds)
  from "2.prems" obtain mid where mid: "set_attr name key val ds = Inr mid" and
    rest: "set_attrs as mid = Inr ds'"
    by (cases "set_attr name key val ds") auto
  from "2.IH"[OF rest] set_attr_keeps[of f, OF f mid, of n] show ?case by simp
qed

lemma set_attr_distinct_attrs:
  assumes inv: "\<forall>n \<in> K. \<forall>var. map_of (variables ds) n = Some var \<longrightarrow> distinct (map fst (vattrs var))"
      and s: "set_attr name key val ds = Inr ds'"
  shows "\<forall>n \<in> K. \<forall>var. map_of (variables ds') n = Some var \<longrightarrow> distinct (map fst (vattrs var))"
proof (cases "map_of (variables ds) name")
  case None
  with s have "ds' = ds" by (auto simp: set_attr_def split: if_splits)
  with inv show ?thesis by simp
next
  case (Some var0)
  with s have v: "variables ds' =
      AList.update name (var0\<lparr>vattrs := AList.update key val (vattrs var0)\<rparr>) (variables ds)"
    by (auto simp: set_attr_def)
  show ?thesis
  proof (intro ballI allI impI)
    fix n var assume n: "n \<in> K" and l: "map_of (variables ds') n = Some var"
    show "distinct (map fst (vattrs var))"
    proof (cases "n = name")
      case True
      with l v have "var = var0\<lparr>vattrs := AList.update key val (vattrs var0)\<rparr>"
        by (simp add: AList.update_conv')
      moreover have "distinct (map fst (vattrs var0))"
        using inv n True Some by blast
      ultimately show ?thesis
        by (simp add: AList.distinct_update)
    next
      case False
      with l v have "map_of (variables ds) n = Some var"
        by (simp add: AList.update_conv')
      with inv n show ?thesis by blast
    qed
  qed
qed

lemma set_attrs_distinct_attrs:
  "\<forall>n \<in> K. \<forall>var. map_of (variables ds) n = Some var \<longrightarrow> distinct (map fst (vattrs var)) \<Longrightarrow>
   set_attrs as ds = Inr ds' \<Longrightarrow>
   \<forall>n \<in> K. \<forall>var. map_of (variables ds') n = Some var \<longrightarrow> distinct (map fst (vattrs var))"
proof (induction as ds rule: set_attrs.induct)
  case (1 ds)
  then show ?case by simp
next
  case (2 name key val as ds)
  from "2.prems"(2) obtain mid where mid: "set_attr name key val ds = Inr mid" and
    rest: "set_attrs as mid = Inr ds'"
    by (cases "set_attr name key val ds") auto
  from set_attr_distinct_attrs[OF "2.prems"(1) mid]
  show ?case by (rule "2.IH"[OF _ rest])
qed

lemma coords_assigned_fresh_attrs:
  "\<forall>n \<in> {''x'', ''y'', ''lon'', ''lat''}. \<forall>var.
      map_of (variables (coords_assigned ds lon lat x y)) n = Some var \<longrightarrow>
      distinct (map fst (vattrs var))"
  using coords_assigned_lookup[of ds lon lat x y]
  by (auto simp: variable1_def variable2_def)

lemma scenario_renamed_dims:
  "calculate_dimensions (variables scenario_renamed) = Inr [(''time'', 2), (''y'', 4), (''x'', 3)]"
  by (simp add: scenario_renamed_def calculate_dimensions_def dim_pairs_def scalar_vars_def)

text \<open>
  Claim C8. Whenever the two annotation cells succeed on a dataset, running them again
  on the result, with the same coordinate arrays, succeeds and returns that result
  unchanged. In the result each of the four coordinates has every attribute key once, and
  every dimension has one size.
\<close>

theorem annotate_idempotent:
  assumes "annotate lon lat x y ds = Inr ds'"
  shows "annotate lon lat x y ds' = Inr ds' \<and>
         (\<forall>name \<in> {''x'', ''y'', ''lon'', ''lat''}.
            \<exists>var. map_of (variables ds') name = Some var \<and> distinct (map fst (vattrs var))) \<and>
         (\<exists>dims. calculate_dimensions (variables ds') = Inr dims \<and> distinct (map fst dims))"
proof -
  from assms obtain A where a: "assign_coords_cell ds lon lat x y = Inr A" and
    s: "set_attrs coordinate_attrs A = Inr ds'"
    unfolding annotate_def attrs_cell_def
    by (cases "assign_coords_cell ds lon lat x y") auto
  note A = assign_coords_cell_InrD(1)[OF a]
  from assign_coords_cell_InrD(2)[OF a] obtain D where D: "calculate_dimensions (variables A) = Inr D"
    by blast
  from set_attrs_Inr[OF s] obtain us where
    cn: "coord_names ds' = coord_names A" and at: "attrs ds' = attrs A" and
    sk: "skeleton (variables ds') = skeleton (variables A)" and
    us: "variables ds' = fold (\<lambda>(k, v). AList.update k v) us (variables A)"
        "fst ` set us \<subseteq> fst ` set coordinate_attrs"
    by blast
  from us(2) have us': "fst ` set us \<subseteq> {''x'', ''y'', ''lon'', ''lat''}"
    by (simp only: coordinate_attrs_names)
  have "assign_coords_cell ds' lon lat x y = Inr A"
    by (rule reassign_coords[OF A D cn at sk us(1) us'])
  then have again: "annotate lon lat x y ds' = Inr ds'"
    using s by (simp add: annotate_def attrs_cell_def)
  have inv: "\<forall>n \<in> {''x'', ''y'', ''lon'', ''lat''}. \<forall>var.
      map_of (variables ds') n = Some var \<longrightarrow> distinct (map fst (vattrs var))"
    using coords_assigned_fresh_attrs[of ds lon lat x y, folded A] s
    by (rule set_attrs_distinct_attrs)
  have present: "\<exists>var. map_of (variables ds') name = Some var"
    if "name \<in> {''x'', ''y'', ''lon'', ''lat''}" for name
  proof -
    have "map_option vdims (map_of (variables ds') name) = map_option vdims (map_of (variables A) name)"
      by (rule set_attrs_keeps[OF _ s]) simp
    moreover have "map_of (variables A) name \<noteq> None"
      using that coords_assigned_lookup[of ds lon lat x y, folded A] by auto
    ultimately show ?thesis
      by (cases "map_of (variables ds') name") auto
  qed
  have attrs_once: "\<forall>name \<in> {''x'', ''y'', ''lon'', ''lat''}.
            \<exists>var. map_of (variables ds') name = Some var \<and> distinct (map fst (vattrs var))"
  proof
    fix name :: string assume n: "name \<in> {''x'', ''y'', ''lon'', ''lat''}"
    from present[OF n] obtain var where "map_of (variables ds') name = Some var" by blast
    with inv n show "\<exists>var. map_of (variables ds') name = Some var \<and> distinct (map fst (vattrs var))"
      by blast
  qed
  have "calculate_dimensions (variables ds') = Inr D"
    using calculate_dimensions_skeleton[OF sk] D by simp
  with calculate_dimensions_Inr(2)[OF D]
  have "\<exists>dims. calculate_dimensions (variables ds') = Inr dims \<and> distinct (map fst dims)"
    by blast
  with again attrs_once show ?thesis by blast
qed

theorem annotate_idempotent_witness:
  "\<exists>ds'. annotate (fst (reprojection Pair [10, 11, 12] [106, 107, 108, 109]))
               (snd (reprojection Pair [10, 11, 12] [106, 107, 108, 109]))
               [10, 11, 12] [106, 107, 108, 109] scenario_renamed = Inr ds' \<and>
          annotate (fst (reprojection Pair [10, 11, 12] [106, 107, 108, 109]))
               (snd (reprojection Pair [10, 11, 12] [106, 107, 108, 109]))
               [10, 11, 12] [106, 107, 108, 109] ds' = Inr ds'"
proof -
  have y: "(''y'', length [106, 107, 108, 109 :: int]) \<in> set [(''time'', 2), (''y'', 4), (''x'', 3)]"
    and x: "(''x'', length [10, 11, 12 :: int]) \<in> set [(''time'', 2), (''y'', 4), (''x'', 3)]"
    by simp_all
  from annotate_ok[OF scenario_renamed_dims y x reprojection_shape[of Pair]]
  obtain ds' where first: "annotate (fst (reprojection Pair [10, 11, 12] [106, 107, 108, 109]))
               (snd (reprojection Pair [10, 11, 12] [106, 107, 108, 109]))
               [10, 11, 12] [106, 107, 108, 109] scenario_renamed = Inr ds'"
    by blast
  from annotate_idempotent[OF first] first show ?thesis by blast
qed

section \<open>Sizes after renaming, and the annotated coordinates\<close>






section \<open>The end-to-end scenario: the claim\<close>











end
